theory Spec2Isabelle
  imports Main "HOL-Library.AList" "HOL-Library.Char_ord" "HOL-Library.List_Lexorder"
begin

section \<open>The VMOD interface compiler (lib/libvcc/vmodtool.py)\<close>

text \<open>
  A shallow embedding of the parser and of the protocol (JSON) generator of
  \<^verbatim>\<open>vmodtool.py\<close>. Python objects become records and datatypes, the
  mutable processing context \<^verbatim>\<open>vcc\<close> is passed explicitly, and every
  \<^verbatim>\<open>exit(1)\<close> and every exception is a value of type \<open>error\<close>.
  A text is a list of characters, one \<open>char\<close> per code point, which covers the code
  points below 256.
\<close>

subsection \<open>Errors and diagnostics\<close>

datatype error =
    Fatal string          \<comment> \<open>\<^verbatim>\<open>err\<close>: the line written to stderr, then \<^verbatim>\<open>exit(1)\<close>\<close>
  | IndexError            \<comment> \<open>\<^verbatim>\<open>pop\<close> or an index on a list that is too short\<close>
  | AssertionError        \<comment> \<open>a failed \<^verbatim>\<open>assert\<close>\<close>
  | TypeError             \<comment> \<open>iterating over \<^verbatim>\<open>None\<close>\<close>
  | AttributeError        \<comment> \<open>an attribute of \<^verbatim>\<open>None\<close>\<close>

definition squote :: char where "squote = CHR 0x27"
definition dquote :: char where "dquote = CHR 0x22"
definition nl :: char where "nl = CHR 0x0A"
definition tab :: char where "tab = CHR 0x09"

text \<open>
  \<^verbatim>\<open>err(txt, warn)\<close> with the global \<^verbatim>\<open>opts.strict\<close> as first argument: either
  the process exits (\<open>Inl\<close>), or the warning line is written to stderr and the caller
  goes on (\<open>Inr\<close> of that line).
\<close>

definition err :: "bool \<Rightarrow> string \<Rightarrow> bool \<Rightarrow> error + string" where
  "err strict txt warn =
     (if strict \<or> \<not> warn then Inl (Fatal (''ERROR: '' @ txt))
      else Inr (''WARNING: '' @ txt))"

text \<open>\<^verbatim>\<open>err(txt, warn=False)\<close>: fatal whatever the strictness.\<close>

definition fatal :: "string \<Rightarrow> error + 'a" where
  "fatal txt = Inl (Fatal (''ERROR: '' @ txt))"

text \<open>\<^verbatim>\<open>"'%s'" % x\<close>\<close>

definition quoted :: "string \<Rightarrow> string" where
  "quoted x = squote # x @ [squote]"

subsection \<open>Strings\<close>

text \<open>\<^verbatim>\<open>str.isspace\<close> on one character (code points below 256).\<close>

definition isspace :: "char \<Rightarrow> bool" where
  "isspace c = (let n = (of_char c :: nat) in
     (9 \<le> n \<and> n \<le> 13) \<or> (28 \<le> n \<and> n \<le> 32) \<or> n = 133 \<or> n = 160)"

definition strip :: "string \<Rightarrow> string" where
  "strip s = rev (dropWhile isspace (rev (dropWhile isspace s)))"

text \<open>\<^verbatim>\<open>sep.join(xs)\<close>\<close>

fun join :: "string \<Rightarrow> string list \<Rightarrow> string" where
  "join sep [] = []"
| "join sep [x] = x"
| "join sep (x # y # ys) = x @ sep @ join sep (y # ys)"

text \<open>\<^verbatim>\<open>s.split(c)\<close> for a one-character separator; \<open>acc\<close> is the piece being read.\<close>

fun split_acc :: "char \<Rightarrow> string \<Rightarrow> string \<Rightarrow> string list" where
  "split_acc c acc [] = [acc]"
| "split_acc c acc (x # xs) =
     (if x = c then acc # split_acc c [] xs else split_acc c (acc @ [x]) xs)"

definition split :: "char \<Rightarrow> string \<Rightarrow> string list" where
  "split c s = split_acc c [] s"

text \<open>\<^verbatim>\<open>s.replace(".", "_")\<close>\<close>

definition replace_dot :: "string \<Rightarrow> string" where
  "replace_dot s = map (\<lambda>c. if c = CHR ''.'' then CHR ''_'' else c) s"

text \<open>\<^verbatim>\<open>"%d" % n\<close> for a natural number.\<close>

definition digit :: "nat \<Rightarrow> char" where
  "digit d = char_of (of_char CHR ''0'' + d)"

function decimal :: "nat \<Rightarrow> string" where
  "decimal n = (if n < 10 then [digit n] else decimal (n div 10) @ [digit (n mod 10)])"
  by pat_completeness auto
termination
  by (relation "measure id") auto

declare decimal.simps [simp del]

text \<open>\<^verbatim>\<open>"%s" % x\<close> where \<^verbatim>\<open>x\<close> is a string or \<^verbatim>\<open>None\<close>.\<close>

definition str_of :: "string option \<Rightarrow> string" where
  "str_of x = (case x of None \<Rightarrow> ''None'' | Some s \<Rightarrow> s)"

subsection \<open>Quoting\<close>

definition is_quoted :: "string \<Rightarrow> bool" where
  "is_quoted txt =
     (length txt > 2 \<and> hd txt = last txt \<and> (hd txt = dquote \<or> hd txt = squote))"

text \<open>\<^verbatim>\<open>unquote\<close> asserts \<^verbatim>\<open>is_quoted(txt)\<close> and returns \<^verbatim>\<open>txt[1:-1]\<close>.\<close>

definition unquote :: "string \<Rightarrow> error + string" where
  "unquote txt = (if is_quoted txt then Inr (butlast (tl txt)) else Inl AssertionError)"

subsection \<open>The patterns given to \<^verbatim>\<open>re.match\<close>\<close>

definition alpha :: "char \<Rightarrow> bool" where
  "alpha c = (c \<in> set ''abcdefghijklmnopqrstuvwxyzABCDEFGHIJKLMNOPQRSTUVWXYZ'')"

definition alnum :: "char \<Rightarrow> bool" where
  "alnum c = (alpha c \<or> c \<in> set ''0123456789_'')"

text \<open>
  Without \<^verbatim>\<open>re.MULTILINE\<close>, \<^verbatim>\<open>$\<close> matches at the end of the string and also
  just before a newline that ends the string.
\<close>

definition dollar :: "(string \<Rightarrow> bool) \<Rightarrow> string \<Rightarrow> bool" where
  "dollar body s = (body s \<or> (s \<noteq> [] \<and> last s = nl \<and> body (butlast s)))"

text \<open>\<^verbatim>\<open>[a-zA-Z_][a-zA-Z0-9_]*\<close> on the whole string.\<close>

definition ident :: "string \<Rightarrow> bool" where
  "ident s = (case s of [] \<Rightarrow> False | c # r \<Rightarrow> (alpha c \<or> c = CHR ''_'') \<and> list_all alnum r)"

text \<open>\<^verbatim>\<open>^[a-zA-Z.][a-zA-Z0-9_]*$\<close>\<close>

definition match_name :: "string \<Rightarrow> bool" where
  "match_name = dollar (\<lambda>s. case s of [] \<Rightarrow> False
      | c # r \<Rightarrow> (alpha c \<or> c = CHR ''.'') \<and> list_all alnum r)"

text \<open>\<^verbatim>\<open>^[a-zA-Z_][a-zA-Z0-9_]*$\<close>\<close>

definition match_cname :: "string \<Rightarrow> bool" where
  "match_cname = dollar ident"

text \<open>\<^verbatim>\<open>^\.?[a-zA-Z_][a-zA-Z0-9_]*$\<close>\<close>

definition match_alias :: "string \<Rightarrow> bool" where
  "match_alias = dollar (\<lambda>s. ident s \<or> (s \<noteq> [] \<and> hd s = CHR ''.'' \<and> ident (tl s)))"

text \<open>
  \<^verbatim>\<open>^[a-zA-Z_][a-zA-Z0-9_]*\.[a-zA-Z_][a-zA-Z0-9_]*$\<close>: an identifier has no dot,
  so the dot of the pattern is the first dot of the string.
\<close>

definition match_obj_method :: "string \<Rightarrow> bool" where
  "match_obj_method = dollar (\<lambda>s.
     let a = takeWhile (\<lambda>c. c \<noteq> CHR ''.'') s; b = dropWhile (\<lambda>c. c \<noteq> CHR ''.'') s
     in ident a \<and> b \<noteq> [] \<and> ident (tl b))"

subsection \<open>Value kinds\<close>

definition PRIVS :: "(string \<times> string) list" where
  "PRIVS =
    [(''PRIV_CALL'', ''struct vmod_priv *''),
     (''PRIV_VCL'', ''struct vmod_priv *''),
     (''PRIV_TASK'', ''struct vmod_priv *''),
     (''PRIV_TOP'', ''struct vmod_priv *'')]"

definition CTYPES :: "(string \<times> string) list" where
  "CTYPES =
    [(''ACL'', ''VCL_ACL''),
     (''BACKEND'', ''VCL_BACKEND''),
     (''BLOB'', ''VCL_BLOB''),
     (''BODY'', ''VCL_BODY''),
     (''BOOL'', ''VCL_BOOL''),
     (''BYTES'', ''VCL_BYTES''),
     (''DURATION'', ''VCL_DURATION''),
     (''ENUM'', ''VCL_ENUM''),
     (''HEADER'', ''VCL_HEADER''),
     (''HTTP'', ''VCL_HTTP''),
     (''INT'', ''VCL_INT''),
     (''IP'', ''VCL_IP''),
     (''PROBE'', ''VCL_PROBE''),
     (''REAL'', ''VCL_REAL''),
     (''REGEX'', ''VCL_REGEX''),
     (''STEVEDORE'', ''VCL_STEVEDORE''),
     (''STRANDS'', ''VCL_STRANDS''),
     (''STRING'', ''VCL_STRING''),
     (''SUB'', ''VCL_SUB''),
     (''TIME'', ''VCL_TIME''),
     (''VOID'', ''VCL_VOID'')] @ PRIVS"

text \<open>
  \<^verbatim>\<open>class CType\<close>. The native type \<open>ct\<close> is a string: when the lookup in
  \<open>CTYPES\<close> gives \<^verbatim>\<open>None\<close> the constructor exits.
\<close>

record ctype =
  nm :: "string option"
  defval :: "string option"
  spec :: "string list option"
  opt :: bool
  vt :: string
  ct :: string

text \<open>\<^verbatim>\<open>class arg(CType)\<close>, with the attribute \<^verbatim>\<open>nm2\<close> that \<^verbatim>\<open>ProtoType\<close> adds.\<close>

record arg = ctype +
  nm2 :: string

type_synonym dict = "(string \<times> bool) list"

text \<open>
  \<^verbatim>\<open>CType.add_spec\<close>, after the opening brace has been popped: the loop over the
  literals. It returns the literal list, the rest of the word list and the enum registry.
\<close>

fun add_spec_loop :: "string list \<Rightarrow> string list \<Rightarrow> dict \<Rightarrow> error + (string list \<times> string list \<times> dict)" where
  "add_spec_loop [] sp enums = Inl IndexError"
| "add_spec_loop (x # wl) sp enums =
     (case (if is_quoted x then unquote x else Inr x) of
        Inl e \<Rightarrow> Inl e
      | Inr x' \<Rightarrow>
          if x' = [] then Inl AssertionError
          else
            (case wl of
               [] \<Rightarrow> Inl IndexError
             | w # wl' \<Rightarrow>
                 if w = ''}'' then Inr (sp @ [x'], wl', AList.update x' True enums)
                 else if w \<noteq> '','' then Inl AssertionError
                 else add_spec_loop wl' (sp @ [x']) (AList.update x' True enums)))"

definition add_spec :: "ctype \<Rightarrow> string list \<Rightarrow> dict \<Rightarrow> error + (ctype \<times> string list \<times> dict)" where
  "add_spec self wl enums =
     (if vt self \<noteq> ''ENUM'' then Inl AssertionError
      else case wl of
        [] \<Rightarrow> Inl IndexError
      | w # wl' \<Rightarrow>
          if w \<noteq> ''{'' then Inl AssertionError
          else (case add_spec_loop wl' [] enums of
                  Inl e \<Rightarrow> Inl e
                | Inr (sp, wl'', enums') \<Rightarrow> Inr (self\<lparr>spec := Some sp\<rparr>, wl'', enums')))"

text \<open>\<^verbatim>\<open>CType.__init__(wl, enums)\<close>\<close>

definition CType_init :: "string list \<Rightarrow> dict \<Rightarrow> error + (ctype \<times> string list \<times> dict)" where
  "CType_init wl enums =
     (case wl of
        [] \<Rightarrow> Inl IndexError
      | v # wl' \<Rightarrow>
          (case map_of CTYPES v of
             None \<Rightarrow> fatal (''Expected type got '' @ quoted v)
           | Some c \<Rightarrow>
               let self = \<lparr>nm = None, defval = None, spec = None, opt = False, vt = v, ct = c\<rparr>
               in if wl' \<noteq> [] \<and> hd wl' = ''{'' then
                    (if v \<noteq> ''ENUM'' then fatal ''Only ENUMs take {...} specs''
                     else add_spec self wl' enums)
                  else Inr (self, wl', enums)))"

text \<open>
  \<^verbatim>\<open>arg.__init__(wl, argnames, enums, end)\<close>; the result also carries the rest of
  the word list and the two dictionaries it updates.
\<close>

definition arg_init ::
  "string list \<Rightarrow> dict \<Rightarrow> dict \<Rightarrow> string \<Rightarrow> error + (ctype \<times> string list \<times> dict \<times> dict)" where
  "arg_init wl argnames enums end =
     (case CType_init wl enums of
        Inl e \<Rightarrow> Inl e
      | Inr (self, wl1, enums') \<Rightarrow>
          (case wl1 of
             [] \<Rightarrow> Inl IndexError
           | x # wl2 \<Rightarrow>
               if x = end then Inr (self, wl1, argnames, enums')
               else if x \<in> fst ` set argnames then fatal (''Duplicate argument name '' @ quoted x)
               else
                 let argnames' = AList.update x True argnames;
                     self1 = self\<lparr>nm := Some x\<rparr>
                 in (case wl2 of
                       [] \<Rightarrow> Inl IndexError
                     | y # wl3 \<Rightarrow>
                         if y = end then Inr (self1, wl2, argnames', enums')
                         else if y \<noteq> ''='' then fatal (''Expected '' @ quoted ''='' @ '' got '' @ quoted y)
                         else
                           (case wl3 of
                              [] \<Rightarrow> Inl IndexError
                            | z # wl4 \<Rightarrow>
                                (case (if vt self = ''ENUM'' \<and> is_quoted z then unquote z else Inr z) of
                                   Inl e \<Rightarrow> Inl e
                                 | Inr z' \<Rightarrow> Inr (self1\<lparr>defval := Some z'\<rparr>, wl4, argnames', enums'))))))"

subsection \<open>Prototypes\<close>

text \<open>
  \<^verbatim>\<open>class ProtoType\<close>. The back reference \<^verbatim>\<open>st\<close> to the stanza is not a
  field: the functions that read \<^verbatim>\<open>self.st.vcc\<close> take the context as an argument.
\<close>

record prototype =
  obj :: "string option"
  args :: "arg list"
  argstruct :: bool
  retval :: ctype
  bname :: string
  name :: string

lemma add_spec_loop_shorter:
  "add_spec_loop wl sp enums = Inr (sp', wl', enums') \<Longrightarrow> length wl' < length wl"
proof (induction wl sp enums rule: add_spec_loop.induct)
  case (1 sp enums)
  then show ?case by simp
next
  case (2 x wl sp enums)
  from "2.prems" obtain x' where x': "(if is_quoted x then unquote x else Inr x) = Inr x'"
    by (auto split: sum.splits)
  with "2.prems" have ne: "x' \<noteq> []"
    by (auto split: if_splits)
  from "2.prems" x' ne obtain w wl1 where wl: "wl = w # wl1"
    by (cases wl) auto
  show ?case
  proof (cases "w = ''}''")
    case True
    with "2.prems" x' ne wl show ?thesis by auto
  next
    case False
    with "2.prems" x' ne wl have c: "w = '',''"
      by (auto split: if_splits)
    with "2.prems" x' ne wl False
    have "add_spec_loop wl1 (sp @ [x']) (AList.update x' True enums) = Inr (sp', wl', enums')"
      by auto
    with "2.IH" [OF x' ne wl False] c have "length wl' < length wl1"
      by simp
    with wl show ?thesis by simp
  qed
qed

lemma add_spec_shorter:
  "add_spec self wl enums = Inr (self', wl', enums') \<Longrightarrow> length wl' < length wl"
  unfolding add_spec_def
  by (cases wl) (auto split: if_splits sum.splits dest!: add_spec_loop_shorter)

lemma CType_init_shorter:
  "CType_init wl enums = Inr (self, wl', enums') \<Longrightarrow> length wl' < length wl"
  unfolding CType_init_def fatal_def Let_def
  by (cases wl) (auto split: option.splits if_splits dest!: add_spec_shorter)

lemma arg_init_shorter:
  assumes "arg_init wl argnames enums end = Inr (self, wl', argnames', enums')"
  shows "length wl' < length wl"
proof -
  from assms obtain c wl1 e1 where c: "CType_init wl enums = Inr (c, wl1, e1)"
    unfolding arg_init_def by (auto split: sum.splits)
  then have "length wl1 < length wl"
    by (rule CType_init_shorter)
  moreover from assms c have "length wl' \<le> length wl1"
    unfolding arg_init_def fatal_def Let_def
    by (auto split: list.splits if_splits sum.splits)
  ultimately show ?thesis by simp
qed

text \<open>
  The last lines of the loop body of \<^verbatim>\<open>ProtoType.__init__\<close>: the \<^verbatim>\<open>VOID\<close>
  check and the bookkeeping name \<^verbatim>\<open>nm2\<close> of argument number \<open>n\<close>.
\<close>

definition finish_arg :: "ctype \<Rightarrow> nat \<Rightarrow> error + arg" where
  "finish_arg t n =
     (if vt t = ''VOID'' then fatal (''arguments can not be of type '' @ quoted (vt t))
      else Inr (ctype.extend t
             (arg.fields (case nm t of None \<Rightarrow> ''arg'' @ decimal n | Some x \<Rightarrow> x))))"

text \<open>
  The \<^verbatim>\<open>while wl:\<close> loop of \<^verbatim>\<open>ProtoType.__init__\<close>. The state of the loop is
  the word list, the dictionary of argument names, the enum registry, the counter
  \<open>n\<close>, and of the prototype the argument list and the \<^verbatim>\<open>argstruct\<close> flag.
\<close>

function proto_args ::
  "string list \<Rightarrow> dict \<Rightarrow> dict \<Rightarrow> nat \<Rightarrow> arg list \<Rightarrow> bool \<Rightarrow> error + (arg list \<times> bool \<times> dict)" where
  "proto_args [] names enums n as astruct = Inr (as, astruct, enums)"
| "proto_args (x # wl) names enums n as astruct =
     (if x \<noteq> '','' then fatal (''Expected '' @ quoted '','' @ '' found '' @ quoted x)
      else if wl = [] then Inr (as, astruct, enums)
      else if hd wl = ''['' then
        (case arg_init (tl wl) names enums '']'' of
           Inl e \<Rightarrow> Inl e
         | Inr (t, wl1, names', enums') \<Rightarrow>
             if nm t = None then fatal ''Optional arguments must have names''
             else
               (case wl1 of
                  [] \<Rightarrow> Inl IndexError
                | y # wl2 \<Rightarrow>
                    if y \<noteq> '']'' then fatal (''Expected '' @ quoted '']'' @ '' found '' @ quoted y)
                    else
                      (case finish_arg (t\<lparr>opt := True\<rparr>) (Suc n) of
                         Inl e \<Rightarrow> Inl e
                       | Inr a \<Rightarrow> proto_args wl2 names' enums' (Suc n) (as @ [a]) True)))
      else
        (case arg_init wl names enums '','' of
           Inl e \<Rightarrow> Inl e
         | Inr (t, wl1, names', enums') \<Rightarrow>
             (case finish_arg t (Suc n) of
                Inl e \<Rightarrow> Inl e
              | Inr a \<Rightarrow> proto_args wl1 names' enums' (Suc n) (as @ [a]) astruct)))"
  by pat_completeness auto
termination
  by (relation "measure (\<lambda>(wl, names, enums, n, as, astruct). length wl)")
     (auto dest!: arg_init_shorter)

declare proto_args.simps [simp del]

text \<open>
  \<^verbatim>\<open>ProtoType.cname(pfx=False)\<close> and \<^verbatim>\<open>ProtoType.cname(pfx=True)\<close>, the latter
  with \<^verbatim>\<open>self.st.vcc.sympfx\<close> as first argument.
\<close>

definition cname :: "prototype \<Rightarrow> string" where
  "cname self = replace_dot (name self)"

definition cname_pfx :: "string \<Rightarrow> prototype \<Rightarrow> string" where
  "cname_pfx sympfx self = sympfx @ cname self"

text \<open>
  \<^verbatim>\<open>ProtoType.__init__(st, retval, prefix)\<close>, from the tokens of the stanza and the
  enum registry of the context; it returns the prototype and the registry.
\<close>

definition ProtoType_init ::
  "string list \<Rightarrow> dict \<Rightarrow> bool \<Rightarrow> string \<Rightarrow> error + (prototype \<times> dict)" where
  "ProtoType_init toks enums with_retval prefix =
     (case (if with_retval then CType_init (tl toks) enums
            else (case CType_init [''VOID''] enums of
                    Inl e \<Rightarrow> Inl e
                  | Inr (r, _, enums') \<Rightarrow> Inr (r, tl toks, enums'))) of
        Inl e \<Rightarrow> Inl e
      | Inr (r, wl, enums1) \<Rightarrow>
          (case wl of
             [] \<Rightarrow> Inl IndexError
           | b # wl1 \<Rightarrow>
               if \<not> match_name b then fatal (b @ ''(): Illegal name'' @ [nl])
               else
                 let self = \<lparr>obj = None, args = [], argstruct = False, retval = r,
                             bname = b, name = prefix @ b\<rparr>
                 in if \<not> match_cname (cname self) then fatal (cname self @ ''(): Illegal C-name'' @ [nl])
                    else if length wl1 = 2 \<and> wl1 ! 0 = ''('' \<and> wl1 ! 1 = '')'' then Inr (self, enums1)
                    else
                      (case wl1 of
                         [] \<Rightarrow> Inl IndexError
                       | w # _ \<Rightarrow>
                           if w \<noteq> ''('' then
                             fatal (''Syntax error: Expected '' @ quoted ''('' @ '', got '' @ quoted w)
                           else
                             let wl2 = wl1[0 := '','']
                             in if last wl2 \<noteq> '')'' then
                                  fatal (''Syntax error: Expected '' @ quoted '')'' @ '', got '' @ quoted (last wl2))
                                else
                                  (case proto_args (wl2[length wl2 - 1 := '','']) [] enums1 0 [] False of
                                     Inl e \<Rightarrow> Inl e
                                   | Inr (as, astruct, enums2) \<Rightarrow>
                                       Inr (self\<lparr>args := as, argstruct := astruct\<rparr>, enums2)))))"

subsection \<open>Stanzas and the processing context\<close>

datatype stanza_class =
    ModuleStanza | PrefixStanza | ABIStanza | EventStanza | FunctionStanza
  | ObjectStanza | MethodStanza | SynopsisStanza | AliasStanza

text \<open>The attributes that the subclasses of \<^verbatim>\<open>Stanza\<close> add to an instance.\<close>

datatype stanza_attrs =
    NoAttrs
  | EventAttrs (event_func: string)
  | ObjectAttrs (init: prototype) (fini: prototype)
  | MethodAttrs (method_pfx: string)
  | AliasAttrs (sym_alias: string) (doc_alias: string) (sym_name: string) (doc_name: string)

text \<open>
  \<^verbatim>\<open>class Stanza\<close>: the attributes set by \<^verbatim>\<open>Stanza.__init__\<close> (without the back
  reference \<^verbatim>\<open>vcc\<close>), the class of the instance and the attributes of that class.
\<close>

datatype stanza =
  Stanza (cls: stanza_class) (toks: "string list") (doc: "string list")
    (rstlbl: "string option") (null_ok: bool) (methods: "stanza list option")
    (proto: "prototype option") (attrs: stanza_attrs)

definition with_toks :: "string list \<Rightarrow> stanza \<Rightarrow> stanza" where
  "with_toks x s = Stanza (cls s) x (doc s) (rstlbl s) (null_ok s) (methods s) (proto s) (attrs s)"

definition with_rstlbl :: "string option \<Rightarrow> stanza \<Rightarrow> stanza" where
  "with_rstlbl x s = Stanza (cls s) (toks s) (doc s) x (null_ok s) (methods s) (proto s) (attrs s)"

definition with_null_ok :: "bool \<Rightarrow> stanza \<Rightarrow> stanza" where
  "with_null_ok x s = Stanza (cls s) (toks s) (doc s) (rstlbl s) x (methods s) (proto s) (attrs s)"

definition with_methods :: "stanza list option \<Rightarrow> stanza \<Rightarrow> stanza" where
  "with_methods x s = Stanza (cls s) (toks s) (doc s) (rstlbl s) (null_ok s) x (proto s) (attrs s)"

definition with_proto :: "prototype option \<Rightarrow> stanza \<Rightarrow> stanza" where
  "with_proto x s = Stanza (cls s) (toks s) (doc s) (rstlbl s) (null_ok s) (methods s) x (attrs s)"

definition with_attrs :: "stanza_attrs \<Rightarrow> stanza \<Rightarrow> stanza" where
  "with_attrs x s = Stanza (cls s) (toks s) (doc s) (rstlbl s) (null_ok s) (methods s) (proto s) x"

text \<open>
  \<^verbatim>\<open>class vcc\<close>. \<open>mansection\<close> and \<open>moddesc\<close> exist once a \<^verbatim>\<open>$Module\<close> stanza
  has been parsed, \<open>file_id\<close> once \<^verbatim>\<open>parse\<close> has returned. \<open>stderr\<close> is not an
  attribute: it collects the warning lines that \<^verbatim>\<open>err\<close> writes.
\<close>

record vcc =
  inputfile :: string
  rstdir :: string
  pfx :: string
  sympfx :: string
  contents :: "stanza list"
  commit_files :: "string list"
  copyright :: string
  enums :: dict
  strict_abi :: "bool option"
  vrt_major :: string
  vrt_minor :: string
  auto_synopsis :: "bool option"
  modname :: "string option"
  csn :: "string option"
  mansection :: "string option"
  moddesc :: "string option"
  file_id :: "string option"
  stderr :: "string list"

text \<open>\<^verbatim>\<open>vcc.__init__(inputvcc, rstdir, outputprefix)\<close>\<close>

definition vcc_init :: "string \<Rightarrow> string \<Rightarrow> string \<Rightarrow> vcc" where
  "vcc_init inputvcc rd outputprefix =
     \<lparr>inputfile = inputvcc, rstdir = rd, pfx = outputprefix, sympfx = ''vmod_'',
      contents = [], commit_files = [], copyright = [], enums = [],
      strict_abi = Some True, vrt_major = ''0'', vrt_minor = ''0'',
      auto_synopsis = Some True, modname = None, csn = None,
      mansection = None, moddesc = None, file_id = None, stderr = []\<rparr>"

text \<open>\<^verbatim>\<open>err(txt)\<close> with the default \<^verbatim>\<open>warn=True\<close>, the warning kept in the context.\<close>

definition warn :: "bool \<Rightarrow> string \<Rightarrow> vcc \<Rightarrow> error + vcc" where
  "warn strict txt v =
     (case err strict txt True of
        Inl e \<Rightarrow> Inl e
      | Inr w \<Rightarrow> Inr (v\<lparr>stderr := stderr v @ [w]\<rparr>))"

text \<open>The documentation strings of the stanza classes, which \<^verbatim>\<open>syntax\<close> prints.\<close>

fun class_doc :: "stanza_class \<Rightarrow> string" where
  "class_doc ModuleStanza = '' $Module modname man_section description ... ''"
| "class_doc ABIStanza = '' $ABI [strict|vrt] ''"
| "class_doc PrefixStanza = '' $Prefix symbol ''"
| "class_doc SynopsisStanza = '' $Synopsis [auto|manual] ''"
| "class_doc EventStanza = '' $Event function_name ''"
| "class_doc FunctionStanza = '' $Function TYPE name ( ARGUMENTS ) ''"
| "class_doc ObjectStanza = '' $Object TYPE class ( ARGUMENTS ) ''"
| "class_doc MethodStanza = '' $Method TYPE . method ( ARGUMENTS ) ''"
| "class_doc AliasStanza = '' $Alias ALIAS SYMBOL ''"

text \<open>\<^verbatim>\<open>Stanza.syntax\<close>: always fatal.\<close>

definition syntax_error :: "stanza \<Rightarrow> error + 'a" where
  "syntax_error self =
     fatal (''Syntax error.'' @ [nl, tab] @ ''Should be: '' @ strip (class_doc (cls self)) @
            [nl, tab] @ ''Is: '' @ join '' '' (toks self) @ [nl])"

text \<open>
  The part of \<^verbatim>\<open>Stanza.__init__\<close> before the call of \<^verbatim>\<open>parse\<close>: the
  documentation text split into lines, blank lines at both ends dropped.
\<close>

definition blank :: "string \<Rightarrow> bool" where
  "blank line = (strip line = [])"

definition Stanza_init :: "stanza_class \<Rightarrow> string list \<Rightarrow> string \<Rightarrow> stanza" where
  "Stanza_init c ts docstr =
     Stanza c ts (rev (dropWhile blank (rev (dropWhile blank (split nl docstr)))))
       None False None None NoAttrs"

definition append_contents :: "stanza \<Rightarrow> vcc \<Rightarrow> vcc" where
  "append_contents self v = v\<lparr>contents := contents v @ [self]\<rparr>"

subsection \<open>The stanza handlers\<close>

text \<open>Each handler is the \<^verbatim>\<open>parse\<close> method of its class, on the context \<open>v\<close>.\<close>

definition ModuleStanza_parse :: "vcc \<Rightarrow> stanza \<Rightarrow> error + vcc" where
  "ModuleStanza_parse v self =
     (if length (toks self) < 4 then syntax_error self
      else
        (case (if length (toks self) = 4 \<and> is_quoted (toks self ! 3) then unquote (toks self ! 3)
               else Inr (join '' '' (drop 3 (toks self)))) of
           Inl e \<Rightarrow> Inl e
         | Inr d \<Rightarrow>
             Inr (append_contents
                    (with_rstlbl (Some (''vmod_'' @ toks self ! 1 @ ''(3)'')) self)
                    (v\<lparr>modname := Some (toks self ! 1), mansection := Some (toks self ! 2),
                       moddesc := Some d\<rparr>))))"

definition ABIStanza_parse :: "bool \<Rightarrow> vcc \<Rightarrow> stanza \<Rightarrow> error + vcc" where
  "ABIStanza_parse strict v self =
     (if length (toks self) \<noteq> 2 then syntax_error self
      else
        let v1 = v\<lparr>strict_abi := map_of [(''strict'', True), (''vrt'', False)] (toks self ! 1)\<rparr>
        in (case (if strict_abi v1 = None then
                    warn strict (''Valid ABI types are '' @ quoted ''strict'' @ '' or '' @
                                 quoted ''vrt'' @ '', got '' @ quoted (toks self ! 1) @ [nl]) v1
                  else Inr v1) of
              Inl e \<Rightarrow> Inl e
            | Inr v2 \<Rightarrow>
                let v3 = append_contents self v2
                in if strict_abi v3 \<noteq> Some True then
                     Inr (v3\<lparr>vrt_major := ''VRT_MAJOR_VERSION'', vrt_minor := ''VRT_MINOR_VERSION''\<rparr>)
                   else Inr v3))"

definition PrefixStanza_parse :: "vcc \<Rightarrow> stanza \<Rightarrow> error + vcc" where
  "PrefixStanza_parse v self =
     (if length (toks self) \<noteq> 2 then syntax_error self
      else Inr (append_contents self (v\<lparr>sympfx := toks self ! 1 @ ''_''\<rparr>)))"

definition SynopsisStanza_parse :: "bool \<Rightarrow> vcc \<Rightarrow> stanza \<Rightarrow> error + vcc" where
  "SynopsisStanza_parse strict v self =
     (if length (toks self) \<noteq> 2 then syntax_error self
      else
        let v1 = v\<lparr>auto_synopsis := map_of [(''auto'', True), (''manual'', False)] (toks self ! 1)\<rparr>
        in (case (if auto_synopsis v1 = None then
                    warn strict (''Valid Synopsis values are '' @ quoted ''auto'' @ '' or '' @
                                 quoted ''manual'' @ '', got '' @ quoted (toks self ! 1) @ [nl]) v1
                  else Inr v1) of
              Inl e \<Rightarrow> Inl e
            | Inr v2 \<Rightarrow> Inr (append_contents self v2)))"

definition EventStanza_parse :: "vcc \<Rightarrow> stanza \<Rightarrow> error + vcc" where
  "EventStanza_parse v self =
     (if length (toks self) \<noteq> 2 then syntax_error self
      else Inr (append_contents (with_attrs (EventAttrs (toks self ! 1)) self) v))"

definition FunctionStanza_parse :: "vcc \<Rightarrow> stanza \<Rightarrow> error + vcc" where
  "FunctionStanza_parse v self =
     (case ProtoType_init (toks self) (enums v) True [] of
        Inl e \<Rightarrow> Inl e
      | Inr (p, en) \<Rightarrow>
          Inr (append_contents
                 (with_rstlbl (Some (str_of (modname v) @ ''.'' @ name p @ ''()''))
                    (with_proto (Some p) self))
                 (v\<lparr>enums := en\<rparr>)))"

definition ObjectStanza_parse :: "vcc \<Rightarrow> stanza \<Rightarrow> error + vcc" where
  "ObjectStanza_parse v self =
     (if length (toks self) < 2 then Inl IndexError
      else
        let self1 = (if toks self ! 1 = ''NULL_OK''
                     then with_null_ok True (with_toks (hd (toks self) # drop 2 (toks self)) self)
                     else self)
        in (case ProtoType_init (toks self1) (enums v) False [] of
              Inl e \<Rightarrow> Inl e
            | Inr (p0, en) \<Rightarrow>
                let p = p0\<lparr>obj := Some (''x'' @ name p0)\<rparr>;
                    i = p\<lparr>name := name p @ ''__init''\<rparr>;
                    f = p\<lparr>name := name p @ ''__fini'', argstruct := False, args := []\<rparr>
                in Inr (append_contents
                          (with_methods (Some [])
                             (with_rstlbl (Some (str_of (modname v) @ ''.'' @ name p @ ''()''))
                                (with_attrs (ObjectAttrs i f) (with_proto (Some p) self1))))
                          (v\<lparr>enums := en\<rparr>))))"

text \<open>
  \<^verbatim>\<open>MethodStanza.parse\<close>. The method is appended to the method list of the last
  entry of \<^verbatim>\<open>contents\<close>, not to \<^verbatim>\<open>contents\<close>.
\<close>

definition MethodStanza_parse :: "vcc \<Rightarrow> stanza \<Rightarrow> error + vcc" where
  "MethodStanza_parse v self =
     (if contents v = [] then Inl IndexError
      else
        let p = last (contents v)
        in if cls p \<noteq> ObjectStanza then Inl AssertionError
           else
             (case (proto p, methods p) of
                (Some pp, Some ms) \<Rightarrow>
                  (case ProtoType_init (toks self) (enums v) True (name pp) of
                     Inl e \<Rightarrow> Inl e
                   | Inr (m0, en) \<Rightarrow>
                       if take 1 (bname m0) \<noteq> ''.'' then
                         fatal (''$Method '' @ bname m0 @ '': Method names need to start with . (dot)'')
                       else
                         let m = m0\<lparr>obj := Some (''x'' @ name pp)\<rparr>;
                             self1 = with_rstlbl (Some (''x'' @ name m @ ''()''))
                                       (with_proto (Some m) (with_attrs (MethodAttrs (name pp)) self))
                         in Inr (v\<lparr>enums := en,
                                   contents := butlast (contents v) @ [with_methods (Some (ms @ [self1])) p]\<rparr>))
              | _ \<Rightarrow> Inl AttributeError))"

text \<open>\<^verbatim>\<open>AliasStanza.find_symbol(tbl, name)\<close>\<close>

fun find_symbol :: "stanza list \<Rightarrow> string \<Rightarrow> error + stanza" where
  "find_symbol [] x = fatal (''Symbol '' @ quoted x @ '' not found'' @ [nl])"
| "find_symbol (sy # tbl) x =
     (case proto sy of
        None \<Rightarrow> find_symbol tbl x
      | Some p \<Rightarrow> if name p = x then Inr sy else find_symbol tbl x)"

definition AliasStanza_parse :: "vcc \<Rightarrow> stanza \<Rightarrow> error + vcc" where
  "AliasStanza_parse v self =
     (if length (toks self) \<noteq> 3 then
        fatal (''Syntax error, expected: $Alias <alias> <symbol>'' @ [nl])
      else if \<not> match_alias (toks self ! 1) then
        fatal (toks self ! 1 @ ''(): Illegal C-name'' @ [nl])
      else if hd (toks self ! 1) = CHR ''.'' then
        (if \<not> match_obj_method (toks self ! 2) then
           fatal (''Syntax error, expected: $Alias <.alias> <obj.method>'' @ [nl])
         else
           let obj_name = hd (split CHR ''.'' (toks self ! 2))
           in (case find_symbol (contents v) obj_name of
                 Inl e \<Rightarrow> Inl e
               | Inr ob \<Rightarrow>
                   (case methods ob of
                      None \<Rightarrow> Inl TypeError
                    | Some ms \<Rightarrow>
                        (case find_symbol ms (toks self ! 2) of
                           Inl e \<Rightarrow> Inl e
                         | Inr _ \<Rightarrow>
                             Inr (append_contents
                                    (with_attrs
                                       (AliasAttrs (obj_name @ toks self ! 1)
                                          (''x'' @ obj_name @ toks self ! 1)
                                          (toks self ! 2) (''x'' @ toks self ! 2))
                                       self)
                                    v)))))
      else
        (case find_symbol (contents v) (toks self ! 2) of
           Inl e \<Rightarrow> Inl e
         | Inr _ \<Rightarrow>
             Inr (append_contents
                    (with_attrs
                       (AliasAttrs (toks self ! 1) (toks self ! 1) (toks self ! 2) (toks self ! 2))
                       self)
                    v)))"

definition DISPATCH :: "(string \<times> stanza_class) list" where
  "DISPATCH =
    [(''Module'', ModuleStanza),
     (''Prefix'', PrefixStanza),
     (''ABI'', ABIStanza),
     (''Event'', EventStanza),
     (''Function'', FunctionStanza),
     (''Object'', ObjectStanza),
     (''Method'', MethodStanza),
     (''Synopsis'', SynopsisStanza),
     (''Alias'', AliasStanza)]"

text \<open>
  \<^verbatim>\<open>stanzaclass(self, toks, docstr)\<close>: the constructor of the class, which ends
  with the call of its \<^verbatim>\<open>parse\<close>.
\<close>

definition new_stanza :: "bool \<Rightarrow> vcc \<Rightarrow> stanza_class \<Rightarrow> string list \<Rightarrow> string \<Rightarrow> error + vcc" where
  "new_stanza strict v c ts docstr =
     (let self = Stanza_init c ts docstr
      in case c of
           ModuleStanza \<Rightarrow> ModuleStanza_parse v self
         | PrefixStanza \<Rightarrow> PrefixStanza_parse v self
         | ABIStanza \<Rightarrow> ABIStanza_parse strict v self
         | EventStanza \<Rightarrow> EventStanza_parse v self
         | FunctionStanza \<Rightarrow> FunctionStanza_parse v self
         | ObjectStanza \<Rightarrow> ObjectStanza_parse v self
         | MethodStanza \<Rightarrow> MethodStanza_parse v self
         | SynopsisStanza \<Rightarrow> SynopsisStanza_parse strict v self
         | AliasStanza \<Rightarrow> AliasStanza_parse v self)"

subsection \<open>The tokenizer and the declaration splitter\<close>

text \<open>\<^verbatim>\<open>out[-1] += c\<close>\<close>

definition add_to_last :: "string list \<Rightarrow> char \<Rightarrow> error + string list" where
  "add_to_last out c = (if out = [] then Inl IndexError else Inr (butlast out @ [last out @ [c]]))"

text \<open>
  The loop of \<^verbatim>\<open>vcc.tokenize\<close> with the default separators and quotes; its state
  is \<^verbatim>\<open>quote\<close>, \<^verbatim>\<open>out\<close> and \<^verbatim>\<open>inside\<close>.
\<close>

fun tokenize_loop :: "string \<Rightarrow> char option \<Rightarrow> string list \<Rightarrow> bool \<Rightarrow> error + string list" where
  "tokenize_loop [] quote out inside = Inr out"
| "tokenize_loop (c # txt) quote out inside =
     (if quote \<noteq> None \<and> Some c = quote then
        (case add_to_last out c of
           Inl e \<Rightarrow> Inl e
         | Inr out' \<Rightarrow> tokenize_loop txt None out' False)
      else if quote \<noteq> None then
        (case add_to_last out c of
           Inl e \<Rightarrow> Inl e
         | Inr out' \<Rightarrow> tokenize_loop txt quote out' inside)
      else if isspace c then tokenize_loop txt quote out False
      else if c \<in> set ''[](){},='' then tokenize_loop txt quote (out @ [[c]]) False
      else if c = dquote \<or> c = squote then tokenize_loop txt (Some c) (out @ [[c]]) inside
      else if inside then
        (case add_to_last out c of
           Inl e \<Rightarrow> Inl e
         | Inr out' \<Rightarrow> tokenize_loop txt quote out' inside)
      else tokenize_loop txt quote (out @ [[c]]) True)"

definition tokenize :: "string \<Rightarrow> error + string list" where
  "tokenize txt = tokenize_loop txt None [] False"

text \<open>\<^verbatim>\<open>a.split("\n$")\<close>; \<open>acc\<close> is the piece being read.\<close>

fun split_stanzas :: "string \<Rightarrow> string \<Rightarrow> string list" where
  "split_stanzas acc [] = [acc]"
| "split_stanzas acc [a] = [acc @ [a]]"
| "split_stanzas acc (a # b # r) =
     (if a = nl \<and> b = CHR ''$'' then acc # split_stanzas [] r
      else split_stanzas (acc @ [a]) (b # r))"

text \<open>
  \<^verbatim>\<open>re.split('\n([^\t ])', x, maxsplit=1)\<close>: the text before the first newline that
  is followed by a character other than tab and space, that character, and the rest;
  or the whole text.
\<close>

fun re_split :: "string \<Rightarrow> string \<Rightarrow> string list" where
  "re_split acc [] = [acc]"
| "re_split acc [a] = [acc @ [a]]"
| "re_split acc (a # b # r) =
     (if a = nl \<and> b \<noteq> tab \<and> b \<noteq> CHR '' '' then [acc, [b], r]
      else re_split (acc @ [a]) (b # r))"

text \<open>
  The \<^verbatim>\<open>while s:\<close> loop of \<^verbatim>\<open>vcc.parse\<close>. \<open>h\<close> is the text fed so far to the
  SHA-256 object.
\<close>

fun parse_loop :: "bool \<Rightarrow> vcc \<Rightarrow> string \<Rightarrow> string list \<Rightarrow> error + (vcc \<times> string)" where
  "parse_loop strict v h [] = Inr (v, h)"
| "parse_loop strict v h (x # s) =
     (let ss = re_split [] x
      in case tokenize (hd ss) of
           Inl e \<Rightarrow> Inl e
         | Inr ts \<Rightarrow>
             let inputline = CHR ''$'' # join '' '' ts;
                 h' = h @ inputline @ [nl];
                 docstr = concat (tl ss)
             in (case ts of
                   [] \<Rightarrow> Inl IndexError
                 | k # _ \<Rightarrow>
                     (case map_of DISPATCH k of
                        None \<Rightarrow> fatal (''Unknown stanza $'' @ k)
                      | Some c \<Rightarrow>
                          (case new_stanza strict v c ts docstr of
                             Inl e \<Rightarrow> Inl e
                           | Inr v' \<Rightarrow> parse_loop strict v' h' s))))"

text \<open>
  \<^verbatim>\<open>vcc.parse\<close> on the decoded text of the input file. \<open>hexdigest\<close> stands for
  \<^verbatim>\<open>hashlib.sha256\<close>: the hexadecimal digest of the UTF-8 encoding of a text.
\<close>

definition parse :: "bool \<Rightarrow> (string \<Rightarrow> string) \<Rightarrow> vcc \<Rightarrow> string \<Rightarrow> error + vcc" where
  "parse strict hexdigest v b =
     (let s = split_stanzas [] (nl # b);
          v1 = v\<lparr>copyright := strip (hd s)\<rparr>
      in case parse_loop strict v1 [] (tl s) of
           Inl e \<Rightarrow> Inl e
         | Inr (v2, h) \<Rightarrow>
             Inr (v2\<lparr>csn := Some (''Vmod_'' @ sympfx v2 @ str_of (modname v2) @ ''_Func''),
                    file_id := Some (hexdigest h)\<rparr>))"

subsection \<open>The protocol generator\<close>

text \<open>The Python values that \<^verbatim>\<open>json.dumps\<close> is given.\<close>

datatype json =
    JNone
  | JBool bool
  | JStr string
  | JList "json list"
  | JDict "(string \<times> json) list"

definition str_or_None :: "string option \<Rightarrow> json" where
  "str_or_None x = (case x of None \<Rightarrow> JNone | Some s \<Rightarrow> JStr s)"

definition list_or_None :: "string list option \<Rightarrow> json" where
  "list_or_None x = (case x of None \<Rightarrow> JNone | Some l \<Rightarrow> JList (map JStr l))"

text \<open>\<^verbatim>\<open>while l[-1] is None: l.pop(-1)\<close>\<close>

function trim_None :: "json list \<Rightarrow> error + json list" where
  "trim_None l =
     (if l = [] then Inl IndexError
      else if last l = JNone then trim_None (butlast l)
      else Inr l)"
  by pat_completeness auto
termination
  by (relation "measure length") auto

declare trim_None.simps [simp del]

text \<open>\<^verbatim>\<open>CType.jsonproto(jl)\<close> and \<^verbatim>\<open>arg.jsonproto(jl)\<close>\<close>

definition CType_jsonproto :: "ctype \<Rightarrow> json list \<Rightarrow> error + json list" where
  "CType_jsonproto self jl =
     (case trim_None [JStr (vt self)] of
        Inl e \<Rightarrow> Inl e
      | Inr l \<Rightarrow> Inr (jl @ [JList l]))"

definition arg_jsonproto :: "arg \<Rightarrow> json list \<Rightarrow> error + json list" where
  "arg_jsonproto self jl =
     (case trim_None
             ([JStr (vt self), str_or_None (nm self), str_or_None (defval self),
               list_or_None (spec self)] @ (if opt self then [JBool True] else [])) of
        Inl e \<Rightarrow> Inl e
      | Inr l \<Rightarrow> Inr (jl @ [JList l]))"

text \<open>The loop \<^verbatim>\<open>for i in self.args: i.jsonproto(ll)\<close>\<close>

fun args_jsonproto :: "arg list \<Rightarrow> json list \<Rightarrow> error + json list" where
  "args_jsonproto [] ll = Inr ll"
| "args_jsonproto (i # rest) ll =
     (case arg_jsonproto i ll of
        Inl e \<Rightarrow> Inl e
      | Inr ll' \<Rightarrow> args_jsonproto rest ll')"

text \<open>\<^verbatim>\<open>ProtoType.jsonproto(jl, cfunc)\<close>, with the context of the stanza first.\<close>

definition ProtoType_jsonproto :: "vcc \<Rightarrow> prototype \<Rightarrow> json list \<Rightarrow> string \<Rightarrow> error + json list" where
  "ProtoType_jsonproto v self jl cfunc =
     (case CType_jsonproto (retval self) [] of
        Inl e \<Rightarrow> Inl e
      | Inr ll \<Rightarrow>
          (case args_jsonproto (args self)
                  (ll @ [JStr (str_of (csn v) @ ''.'' @ cfunc),
                         (if argstruct self then
                            JStr (''struct arg_'' @ sympfx v @ str_of (modname v) @ ''_'' @ cname self)
                          else JStr [])]) of
             Inl e \<Rightarrow> Inl e
           | Inr ll' \<Rightarrow> Inr (jl @ [JList ll'])))"

text \<open>
  The \<^verbatim>\<open>json\<close> methods of the stanza classes, and the loop
  \<^verbatim>\<open>for i in self.methods: i.json(ll)\<close> of \<^verbatim>\<open>ObjectStanza.json\<close>, which is also
  the loop \<^verbatim>\<open>for j in self.contents: j.json(jl)\<close> of \<^verbatim>\<open>vcc.iter_json\<close>.
\<close>

fun stanza_json :: "vcc \<Rightarrow> stanza \<Rightarrow> json list \<Rightarrow> error + json list"
  and stanzas_json :: "vcc \<Rightarrow> stanza list \<Rightarrow> json list \<Rightarrow> error + json list" where
  "stanzas_json v [] ll = Inr ll"
| "stanzas_json v (i # rest) ll =
     (case stanza_json v i ll of
        Inl e \<Rightarrow> Inl e
      | Inr ll' \<Rightarrow> stanzas_json v rest ll')"
| "stanza_json v (Stanza c ts d r n ms p a) jl =
     (case c of
        EventStanza \<Rightarrow> Inr (jl @ [JList [JStr ''$EVENT'', JStr (str_of (csn v) @ ''._event'')]])
      | FunctionStanza \<Rightarrow>
          (case p of
             None \<Rightarrow> Inl AttributeError
           | Some pr \<Rightarrow>
               (case ProtoType_jsonproto v pr [JStr ''$FUNC'', JStr (name pr)] (cname pr) of
                  Inl e \<Rightarrow> Inl e
                | Inr l \<Rightarrow> Inr (jl @ [JList l])))
      | ObjectStanza \<Rightarrow>
          (case (p, a) of
             (Some pr, ObjectAttrs i f) \<Rightarrow>
               (case ProtoType_jsonproto v i [JStr ''$INIT''] (name i) of
                  Inl e \<Rightarrow> Inl e
                | Inr l2 \<Rightarrow>
                    (case ProtoType_jsonproto v f [JStr ''$FINI''] (name f) of
                       Inl e \<Rightarrow> Inl e
                     | Inr l3 \<Rightarrow>
                         (case ms of
                            None \<Rightarrow> Inl TypeError
                          | Some l \<Rightarrow>
                              (case stanzas_json v l
                                      [JStr ''$OBJ'', JStr (name pr), JDict [(''NULL_OK'', JBool n)],
                                       JStr (''struct '' @ sympfx v @ str_of (modname v) @ ''_'' @ name pr),
                                       JList l2, JList l3] of
                                 Inl e \<Rightarrow> Inl e
                               | Inr ll \<Rightarrow> Inr (jl @ [JList ll])))))
           | _ \<Rightarrow> Inl AttributeError)
      | MethodStanza \<Rightarrow>
          (case (p, a) of
             (Some pr, MethodAttrs mp) \<Rightarrow>
               (case ProtoType_jsonproto v pr
                       [JStr ''$METHOD'', JStr (drop (length mp + 1) (name pr))] (cname pr) of
                  Inl e \<Rightarrow> Inl e
                | Inr l \<Rightarrow> Inr (jl @ [JList l]))
           | _ \<Rightarrow> Inl AttributeError)
      | AliasStanza \<Rightarrow>
          (case a of
             AliasAttrs sa da sn dn \<Rightarrow> Inr (jl @ [JList [JStr ''$ALIAS'', JStr sa, JStr sn]])
           | _ \<Rightarrow> Inl AttributeError)
      | _ \<Rightarrow> Inr jl)"

text \<open>
  The list \<^verbatim>\<open>jl\<close> that \<^verbatim>\<open>vcc.iter_json(fnx)\<close> gives to \<^verbatim>\<open>json.dumps\<close>;
  \<open>fnx_lines\<close> are the lines of the file \<^verbatim>\<open>fnx\<close>, already \<^verbatim>\<open>rstrip\<close>ped.
\<close>

definition iter_json :: "vcc \<Rightarrow> string list \<Rightarrow> error + json list" where
  "iter_json v fnx_lines =
     stanzas_json v (contents v)
       [JList [JStr ''$VMOD'', JStr ''1.0'', str_or_None (modname v), str_or_None (csn v),
               str_or_None (file_id v)],
        JList ([JStr ''$CPROTO''] @ map JStr fnx_lines @
               [JStr (''static struct '' @ str_of (csn v) @ '' '' @ str_of (csn v) @ '';'')])]"

subsection \<open>Native prototypes\<close>

text \<open>\<^verbatim>\<open>s.expandtabs()\<close>, with tab stops every 8 columns; \<open>j\<close> is the current column.\<close>

fun expandtabs_loop :: "nat \<Rightarrow> string \<Rightarrow> string" where
  "expandtabs_loop j [] = []"
| "expandtabs_loop j (c # s) =
     (if c = tab then replicate (8 - j mod 8) CHR '' '' @ expandtabs_loop (j + (8 - j mod 8)) s
      else c # expandtabs_loop (if c = nl \<or> c = CHR 0x0D then 0 else j + 1) s)"

definition expandtabs :: "string \<Rightarrow> string" where
  "expandtabs s = expandtabs_loop 0 s"

lemma expandtabs_loop_tab:
  "length (expandtabs_loop j s) < length (expandtabs_loop j (s @ [tab]))"
proof (induction s arbitrary: j)
  case Nil
  have "0 < 8 - j mod 8"
    by simp
  then show ?case
    by (simp del: zero_less_diff)
next
  case (Cons c s)
  show ?case
  proof (cases "c = tab")
    case True
    define d where "d = 8 - j mod 8"
    have l: "expandtabs_loop j (tab # r) = replicate d CHR '' '' @ expandtabs_loop (j + d) r" for r
      by (simp add: d_def)
    from True Cons.IH [of "j + d"] show ?thesis
      by (simp add: l del: expandtabs_loop.simps)
  next
    case False
    with Cons.IH [of "if c = nl \<or> c = CHR 0x0D then 0 else j + 1"] show ?thesis by simp
  qed
qed

text \<open>The loop \<^verbatim>\<open>while len(t.expandtabs()) < 40: t += '\t'\<close> of \<^verbatim>\<open>fmt_cstruct\<close>.\<close>

function pad_tabs :: "string \<Rightarrow> string" where
  "pad_tabs t = (if length (expandtabs t) < 40 then pad_tabs (t @ [tab]) else t)"
  by pat_completeness auto
termination
proof (relation "measure (\<lambda>t. 40 - length (expandtabs t))")
  show "wf (measure (\<lambda>t. 40 - length (expandtabs t)))"
    by simp
next
  fix t :: string
  assume "length (expandtabs t) < 40"
  with expandtabs_loop_tab [of 0 t]
  show "(t @ [tab], t) \<in> measure (\<lambda>t. 40 - length (expandtabs t))"
    by (simp add: expandtabs_def)
qed

declare pad_tabs.simps [simp del]

text \<open>\<^verbatim>\<open>fmt_cstruct(fo, a, b)\<close>: the text written to \<^verbatim>\<open>fo\<close>.\<close>

definition fmt_cstruct :: "string \<Rightarrow> string \<Rightarrow> string" where
  "fmt_cstruct a b =
     (let t = tab # a;
          t1 = (if length (expandtabs t) > 40 then t @ [nl, tab, tab, tab, tab, tab] else t @ [tab])
      in pad_tabs t1 @ b @ [nl])"

text \<open>\<^verbatim>\<open>s.rfind(c)\<close>: the index of the last occurrence, \<open>None\<close> for \<^verbatim>\<open>-1\<close>.\<close>

definition rfind :: "char \<Rightarrow> string \<Rightarrow> nat option" where
  "rfind c s =
     (if c \<in> set s then Some (length s - 1 - length (takeWhile (\<lambda>x. x \<noteq> c) (rev s))) else None)"

text \<open>
  The \<^verbatim>\<open>while\<close> loop of \<^verbatim>\<open>lwrap(s, width=64)\<close>; it returns the lines so far, the
  indentation \<^verbatim>\<open>p\<close> and the rest of \<^verbatim>\<open>s\<close>.
\<close>

function lwrap_loop :: "string list \<Rightarrow> string \<Rightarrow> string \<Rightarrow> string list \<times> string \<times> string" where
  "lwrap_loop ll p s =
     (if length s > 64 then
        (case (case rfind CHR '','' (take 64 s) of
                 None \<Rightarrow> rfind CHR ''('' (take 64 s)
               | Some y \<Rightarrow> Some y) of
           None \<Rightarrow> (ll, p, s)
         | Some y \<Rightarrow> lwrap_loop (ll @ [p @ take (y + 1) s]) ''    '' (dropWhile isspace (drop (y + 1) s)))
      else (ll, p, s))"
  by pat_completeness auto
termination
proof (relation "measure (\<lambda>(ll, p, s). length s)")
  show "wf (measure (\<lambda>(ll, p, s). length s))"
    by simp
next
  fix ll :: "string list" and p s :: string and y :: nat
  assume "64 < length s"
  then have "length (dropWhile isspace (drop (y + 1) s)) < length s"
    using length_dropWhile_le [of isspace "drop (y + 1) s"] by simp
  then show "((ll @ [p @ take (y + 1) s], ''    '', dropWhile isspace (drop (y + 1) s)), (ll, p, s))
               \<in> measure (\<lambda>(ll, p, s). length s)"
    by simp
qed

declare lwrap_loop.simps [simp del]

definition lwrap :: "string \<Rightarrow> string" where
  "lwrap s =
     (case lwrap_loop [] [] s of
        (ll, p, s') \<Rightarrow> join [nl] (if s' \<noteq> [] then ll @ [p @ s'] else ll) @ [nl])"

text \<open>\<^verbatim>\<open>ProtoType.argstructname\<close>\<close>

definition argstructname :: "prototype \<Rightarrow> string" where
  "argstructname self = ''struct VARGS('' @ cname self @ '')''"

text \<open>
  \<^verbatim>\<open>ProtoType.argstructure\<close>: the line of a validity flag, the line of a field, the
  two loops over the arguments, and the whole text.
\<close>

definition valid_line :: "string \<Rightarrow> string" where
  "valid_line x = [tab] @ ''char'' @ [tab, tab, tab] @ ''valid_'' @ x @ '';'' @ [nl]"

definition field_line :: "arg \<Rightarrow> string" where
  "field_line i =
     [tab] @ ct i @ (if length (ct i) < 8 then [tab] else []) @
     (if length (ct i) < 16 then [tab] else []) @ [tab] @ nm2 i @ '';'' @ [nl]"

fun valid_lines :: "arg list \<Rightarrow> string \<Rightarrow> error + string" where
  "valid_lines [] s = Inr s"
| "valid_lines (i # rest) s =
     (if opt i then
        (case nm i of
           None \<Rightarrow> Inl AssertionError
         | Some x \<Rightarrow> valid_lines rest (s @ valid_line x))
      else valid_lines rest s)"

fun field_lines :: "arg list \<Rightarrow> string \<Rightarrow> string" where
  "field_lines [] s = s"
| "field_lines (i # rest) s = field_lines rest (s @ field_line i)"

definition argstructure :: "prototype \<Rightarrow> error + string" where
  "argstructure self =
     (case valid_lines (args self) ([nl] @ argstructname self @ '' {'' @ [nl]) of
        Inl e \<Rightarrow> Inl e
      | Inr s \<Rightarrow> Inr (field_lines (args self) s @ ''};'' @ [nl]))"

text \<open>
  \<^verbatim>\<open>ProtoType.proto(args, name)\<close>: the list \<^verbatim>\<open>ll\<close> of the native argument types,
  and the prototype text.
\<close>

definition proto_ll :: "prototype \<Rightarrow> string list \<Rightarrow> string list" where
  "proto_ll self eargs =
     (if argstruct self then eargs @ [argstructname self @ ''*'']
      else eargs @ map ct (args self))"

definition ProtoType_proto :: "prototype \<Rightarrow> string list \<Rightarrow> string \<Rightarrow> string" where
  "ProtoType_proto self eargs x =
     ct (retval self) @ '' '' @ x @ ''('' @ join '', '' (proto_ll self eargs) @ '');''"

text \<open>
  \<^verbatim>\<open>ProtoType.typedef_name\<close> and \<^verbatim>\<open>ProtoType.typedef(args)\<close>; concatenating the
  module name raises when it is \<^verbatim>\<open>None\<close>.
\<close>

definition typedef_name :: "vcc \<Rightarrow> prototype \<Rightarrow> error + string" where
  "typedef_name v self =
     (case modname v of
        None \<Rightarrow> Inl TypeError
      | Some m \<Rightarrow> Inr (''td_'' @ sympfx v @ m @ ''_'' @ cname self))"

definition ProtoType_typedef :: "vcc \<Rightarrow> prototype \<Rightarrow> string list \<Rightarrow> error + string" where
  "ProtoType_typedef v self eargs =
     (case typedef_name v self of
        Inl e \<Rightarrow> Inl e
      | Inr x \<Rightarrow> Inr (''typedef '' @ ProtoType_proto self eargs x))"

text \<open>\<^verbatim>\<open>ProtoType.cproto(eargs, where)\<close>\<close>

definition cproto :: "vcc \<Rightarrow> prototype \<Rightarrow> string list \<Rightarrow> char \<Rightarrow> error + string" where
  "cproto v self eargs w =
     (if w = CHR ''h'' then
        (case (if argstruct self then argstructure self else Inr []) of
           Inl e \<Rightarrow> Inl e
         | Inr s \<Rightarrow> Inr (s @ lwrap (ProtoType_proto self eargs (cname_pfx (sympfx v) self))))
      else if w = CHR ''c'' then
        (case ProtoType_typedef v self eargs of
           Inl e \<Rightarrow> Inl e
         | Inr t \<Rightarrow> Inr (lwrap t))
      else if w = CHR ''o'' then
        (case (if argstruct self then argstructure self else Inr []) of
           Inl e \<Rightarrow> Inl e
         | Inr s \<Rightarrow>
             (case ProtoType_typedef v self eargs of
                Inl e \<Rightarrow> Inl e
              | Inr t \<Rightarrow> Inr (s @ lwrap t)))
      else Inl AssertionError)"

text \<open>
  The \<^verbatim>\<open>cstuff(fo, where)\<close> methods: the text written to \<^verbatim>\<open>fo\<close>. The loop over
  the methods of an object reads \<^verbatim>\<open>i.proto\<close> of each; \<open>out\<close> is the text written
  so far.
\<close>

fun methods_cproto :: "vcc \<Rightarrow> stanza list \<Rightarrow> string list \<Rightarrow> char \<Rightarrow> string \<Rightarrow> error + string" where
  "methods_cproto v [] eargs w out = Inr out"
| "methods_cproto v (i # rest) eargs w out =
     (case proto i of
        None \<Rightarrow> Inl AttributeError
      | Some p \<Rightarrow>
          (case cproto v p eargs w of
             Inl e \<Rightarrow> Inl e
           | Inr s \<Rightarrow> methods_cproto v rest eargs w (out @ s)))"

text \<open>
  The implicit leading arguments that \<^verbatim>\<open>ObjectStanza.cstuff\<close> gives to
  \<^verbatim>\<open>cproto\<close> for the init entry, the fini entry and the methods; \<open>sn\<close> is the
  name of the handle struct.
\<close>

definition init_eargs :: "string \<Rightarrow> string list" where
  "init_eargs sn = [''VRT_CTX'', ''struct '' @ sn @ '' **'', ''const char *'']"

definition fini_eargs :: "string \<Rightarrow> string list" where
  "fini_eargs sn = [''struct '' @ sn @ '' **'']"

definition method_eargs :: "string \<Rightarrow> string list" where
  "method_eargs sn = [''VRT_CTX'', ''struct '' @ sn @ '' *'']"

definition ObjectStanza_cstuff :: "vcc \<Rightarrow> stanza \<Rightarrow> char \<Rightarrow> error + string" where
  "ObjectStanza_cstuff v self w =
     (case (modname v, proto self, attrs self, methods self) of
        (None, _, _, _) \<Rightarrow> Inl TypeError
      | (Some m, Some p, ObjectAttrs i f, Some ms) \<Rightarrow>
          let sn = ''VPFX('' @ m @ ''_'' @ name p @ '')''
          in (case cproto v i (init_eargs sn) w of
                Inl e \<Rightarrow> Inl e
              | Inr si \<Rightarrow>
                  (case cproto v f (fini_eargs sn) w of
                     Inl e \<Rightarrow> Inl e
                   | Inr sf \<Rightarrow>
                       (case methods_cproto v ms (method_eargs sn) w
                               (''struct '' @ sn @ '';'' @ [nl] @ si @ sf) of
                          Inl e \<Rightarrow> Inl e
                        | Inr out \<Rightarrow> Inr (out @ [nl]))))
      | _ \<Rightarrow> Inl AttributeError)"

definition FunctionStanza_cstuff :: "vcc \<Rightarrow> stanza \<Rightarrow> char \<Rightarrow> error + string" where
  "FunctionStanza_cstuff v self w =
     (case proto self of
        None \<Rightarrow> Inl AttributeError
      | Some p \<Rightarrow> cproto v p [''VRT_CTX''] w)"


subsection \<open>The source generator and the protocol blob\<close>

text \<open>\<^verbatim>\<open>vcc.mkdefs(fo)\<close>: the text written.\<close>

definition mkdefs :: "vcc \<Rightarrow> string" where
  "mkdefs v =
     ''#define VPFX(a) '' @ sympfx v @ ''##a'' @ [nl] @
     ''#define VARGS(a) arg_'' @ sympfx v @ str_of (modname v) @ ''_##a'' @ [nl] @
     ''#define VENUM(a) enum_'' @ sympfx v @ str_of (modname v) @ ''_##a'' @ [nl] @
     concat (map (\<lambda>a. concat (map (\<lambda>b. ''//lint -esym('' @ b @ '', '' @ a @ '')'' @ [nl])
                                     [''755'', ''767'']))
                 [''VPFX'', ''VARGS'', ''VENUM'']) @
     ''//lint -esym(755, VARGS)'' @ [nl] @
     ''//lint -esym(755, VENUM)'' @ [nl] @ [nl]"

text \<open>\<^verbatim>\<open>Stanza.fmt_cstruct_proto(fo, proto, define)\<close>\<close>

definition fmt_cstruct_proto :: "vcc \<Rightarrow> prototype \<Rightarrow> bool \<Rightarrow> error + string" where
  "fmt_cstruct_proto v p define =
     (if define then
        (case typedef_name v p of
           Inl e \<Rightarrow> Inl e
         | Inr t \<Rightarrow> Inr (fmt_cstruct t (''*'' @ cname p @ '';'')))
      else Inr (fmt_cstruct (''.'' @ cname p @ '' ='') (sympfx v @ cname p @ '','')))"

text \<open>
  The \<^verbatim>\<open>cstruct(fo, define)\<close> methods of the stanza classes and the loop over a list
  of stanzas; \<open>out\<close> is the text written so far.
\<close>

fun stanza_cstruct :: "vcc \<Rightarrow> stanza \<Rightarrow> bool \<Rightarrow> string \<Rightarrow> error + string"
  and stanzas_cstruct :: "vcc \<Rightarrow> stanza list \<Rightarrow> bool \<Rightarrow> string \<Rightarrow> error + string" where
  "stanzas_cstruct v [] define out = Inr out"
| "stanzas_cstruct v (j # rest) define out =
     (case stanza_cstruct v j define out of
        Inl e \<Rightarrow> Inl e
      | Inr out' \<Rightarrow> stanzas_cstruct v rest define out')"
| "stanza_cstruct v (Stanza c ts d r n ms p a) define out =
     (case c of
        EventStanza \<Rightarrow>
          (case a of
             EventAttrs ef \<Rightarrow>
               if define then Inr (out @ fmt_cstruct ''vmod_event_f'' ''*_event;'')
               else Inr (out @ fmt_cstruct ''._event ='' (sympfx v @ ef @ '',''))
           | _ \<Rightarrow> Inl AttributeError)
      | FunctionStanza \<Rightarrow>
          (case p of
             None \<Rightarrow> Inl AttributeError
           | Some pr \<Rightarrow>
               (case fmt_cstruct_proto v pr define of
                  Inl e \<Rightarrow> Inl e
                | Inr s \<Rightarrow> Inr (out @ s)))
      | ObjectStanza \<Rightarrow>
          (case a of
             ObjectAttrs i f \<Rightarrow>
               (case fmt_cstruct_proto v i define of
                  Inl e \<Rightarrow> Inl e
                | Inr si \<Rightarrow>
                    (case fmt_cstruct_proto v f define of
                       Inl e \<Rightarrow> Inl e
                     | Inr sf \<Rightarrow>
                         (case ms of
                            None \<Rightarrow> Inl TypeError
                          | Some l \<Rightarrow>
                              (case stanzas_cstruct v l define (out @ si @ sf) of
                                 Inl e \<Rightarrow> Inl e
                               | Inr out' \<Rightarrow> Inr (out' @ [nl])))))
           | _ \<Rightarrow> Inl AttributeError)
      | MethodStanza \<Rightarrow>
          (case p of
             None \<Rightarrow> Inl AttributeError
           | Some pr \<Rightarrow>
               (case fmt_cstruct_proto v pr define of
                  Inl e \<Rightarrow> Inl e
                | Inr s \<Rightarrow> Inr (out @ s)))
      | _ \<Rightarrow> Inr out)"

text \<open>\<^verbatim>\<open>vcc.cstruct(fo)\<close>; \<^verbatim>\<open>sorted\<close> compares strings by code points.\<close>

definition vcc_cstruct :: "vcc \<Rightarrow> error + string" where
  "vcc_cstruct v =
     (case stanzas_cstruct v (contents v) True
             ([nl] @ ''struct '' @ str_of (csn v) @ '' {'' @ [nl]) of
        Inl e \<Rightarrow> Inl e
      | Inr out \<Rightarrow>
          Inr (out @
               concat (map (\<lambda>j. fmt_cstruct ''VCL_ENUM'' (''*enum_'' @ j @ '';''))
                         (sort (map fst (enums v)))) @
               ''};'' @ [nl]))"

text \<open>
  The two loops of \<^verbatim>\<open>vcc.mkcfile\<close> over the objects and over the functions: each
  stanza writes to \<^verbatim>\<open>fo\<close> (\<^verbatim>\<open>'c'\<close>) and then to \<^verbatim>\<open>fx\<close> (\<^verbatim>\<open>'o'\<close>); \<open>out\<close>
  is the text of \<^verbatim>\<open>fx\<close>.
\<close>

fun objects_cstuff :: "vcc \<Rightarrow> stanza list \<Rightarrow> string \<Rightarrow> error + string" where
  "objects_cstuff v [] out = Inr out"
| "objects_cstuff v (i # rest) out =
     (if cls i = ObjectStanza then
        (case ObjectStanza_cstuff v i CHR ''c'' of
           Inl e \<Rightarrow> Inl e
         | Inr _ \<Rightarrow>
             (case ObjectStanza_cstuff v i CHR ''o'' of
                Inl e \<Rightarrow> Inl e
              | Inr s \<Rightarrow> objects_cstuff v rest (out @ s)))
      else objects_cstuff v rest out)"

fun functions_cstuff :: "vcc \<Rightarrow> stanza list \<Rightarrow> string \<Rightarrow> error + string" where
  "functions_cstuff v [] out = Inr out"
| "functions_cstuff v (i # rest) out =
     (if cls i = FunctionStanza then
        (case FunctionStanza_cstuff v i CHR ''c'' of
           Inl e \<Rightarrow> Inl e
         | Inr _ \<Rightarrow>
             (case FunctionStanza_cstuff v i CHR ''o'' of
                Inl e \<Rightarrow> Inl e
              | Inr s \<Rightarrow> functions_cstuff v rest (out @ s)))
      else functions_cstuff v rest out)"

text \<open>
  The text of the file \<^verbatim>\<open>fnx\<close> when \<^verbatim>\<open>vcc.mkcfile\<close> closes it: the part of
  \<^verbatim>\<open>mkcfile\<close> that writes to \<^verbatim>\<open>fx\<close>.
\<close>

definition mkcfile_fx :: "vcc \<Rightarrow> error + string" where
  "mkcfile_fx v =
     (case objects_cstuff v (contents v) (mkdefs v) of
        Inl e \<Rightarrow> Inl e
      | Inr o1 \<Rightarrow>
          (case functions_cstuff v (contents v) (o1 @ ''/* Functions */'' @ [nl]) of
             Inl e \<Rightarrow> Inl e
           | Inr o2 \<Rightarrow>
               (case vcc_cstruct v of
                  Inl e \<Rightarrow> Inl e
                | Inr cs \<Rightarrow>
                    Inr (o2 @ cs @ ''#undef VPFX'' @ [nl] @ ''#undef VARGS'' @ [nl] @
                         ''#undef VENUM'' @ [nl]))))"

text \<open>
  \<^verbatim>\<open>for i in open(fnx)\<close>: the lines of a text read with universal newlines, without
  their line ends; \<open>acc\<close> is the line being read. \<^verbatim>\<open>i.rstrip()\<close>.
\<close>

fun file_lines :: "string \<Rightarrow> string \<Rightarrow> string list" where
  "file_lines acc [] = (if acc = [] then [] else [acc])"
| "file_lines acc (c # s) =
     (if c = nl then acc # file_lines [] s
      else if c = CHR 0x0D then
        acc # file_lines [] (if s \<noteq> [] \<and> hd s = nl then tl s else s)
      else file_lines (acc @ [c]) s)"

definition rstrip :: "string \<Rightarrow> string" where
  "rstrip s = rev (dropWhile isspace (rev s))"

text \<open>
  \<^verbatim>\<open>vcc.json(fo, fnx)\<close>: the text written to \<^verbatim>\<open>fo\<close>, the definition of
  \<^verbatim>\<open>Vmod_Json\<close>. \<open>dumps_lines\<close> stands for
  \<^verbatim>\<open>json.dumps(jl, indent=2, separators=(",", ": ")).splitlines()\<close>; the lines that
  \<^verbatim>\<open>iter_json\<close> yields are these, each with a space appended.
\<close>

definition json_line :: "vcc \<Rightarrow> nat \<Rightarrow> string \<Rightarrow> string" where
  "json_line v n i =
     [tab, dquote] @
     concat (map (\<lambda>j. if j = dquote \<or> j = CHR 0x5C then [CHR 0x5C, j] else [j]) i) @
     (if n = 6 then
        [CHR '','', dquote, nl, tab, dquote] @ ''    '' @ [CHR 0x5C, dquote, dquote] @
        '' VMOD_ABI_Version '' @ [dquote, CHR 0x5C, dquote] @ '', '' @ [dquote, nl] @
        [tab] @ ''    STRINGIFY1('' @ vrt_major v @ '') '' @ [dquote] @ '', '' @ [dquote, nl] @
        [tab] @ ''    STRINGIFY1('' @ vrt_minor v @ '')'' @ [nl]
      else [dquote, nl])"

definition vcc_json :: "(json \<Rightarrow> string list) \<Rightarrow> vcc \<Rightarrow> string list \<Rightarrow> error + string" where
  "vcc_json dumps_lines v fnx_lines =
     (case iter_json v fnx_lines of
        Inl e \<Rightarrow> Inl e
      | Inr jl \<Rightarrow>
          Inr (''#define STRINGIFY3(arg) #arg'' @ [nl] @
               ''#define STRINGIFY2(arg) STRINGIFY3(#arg)'' @ [nl] @
               ''#define STRINGIFY1(arg) STRINGIFY2(arg)'' @ [nl] @
               [nl] @ ''static const char Vmod_Json[] = {'' @ [nl] @
               [tab, dquote] @ ''VMOD_JSON_SPEC'' @ [CHR 0x02, dquote, nl] @
               concat (map (\<lambda>(n, i). json_line v n (i @ '' ''))
                         (enumerate 0 (dumps_lines (JList jl)))) @
               [tab, dquote, CHR 0x5C] @ ''n'' @ [CHR 0x5C] @ ''x03'' @ [dquote, nl] @ ''};'' @ [nl] @
               ''#undef STRINGIFY'' @ [nl]))"

text \<open>
  The protocol blob of a parsed context, as \<^verbatim>\<open>vcc.mkcfile\<close> produces it: the file
  \<^verbatim>\<open>fnx\<close> is written, then read back by \<^verbatim>\<open>iter_json\<close>.
\<close>

definition mkcfile_json :: "(json \<Rightarrow> string list) \<Rightarrow> vcc \<Rightarrow> error + string" where
  "mkcfile_json dumps_lines v =
     (case mkcfile_fx v of
        Inl e \<Rightarrow> Inl e
      | Inr fx \<Rightarrow> vcc_json dumps_lines v (map rstrip (file_lines [] fx)))"


section \<open>Properties\<close>

subsection \<open>Quoted tokens\<close>

text \<open>
  Claim C10. A token is treated as quoted only when it has at least three characters and
  its first and last characters are the same quote character. The two-character literal
  made of two double quotes is therefore never unquoted: as an enum literal it is
  registered, and as an enum default it is stored, with its quote characters. The last
  two conjuncts follow the declaration \<^verbatim>\<open>Function VOID f(ENUM {"", a} e = "")\<close>
  through the tokenizer and the prototype parser.
\<close>

theorem empty_quoted_literal_kept:
  "is_quoted txt = (3 \<le> length txt \<and> hd txt = last txt \<and> (hd txt = dquote \<or> hd txt = squote))
   \<and> \<not> is_quoted [dquote, dquote]
   \<and> \<not> is_quoted [squote, squote]
   \<and> add_spec_loop ([dquote, dquote] # ''}'' # wl) sp en =
       Inr (sp @ [[dquote, dquote]], wl, AList.update [dquote, dquote] True en)
   \<and> tokenize (''Function VOID f(ENUM {'' @ [dquote, dquote] @ '', a} e = '' @ [dquote, dquote] @ '')'') =
       Inr [''Function'', ''VOID'', ''f'', ''('', ''ENUM'', ''{'', [dquote, dquote], '','', ''a'', ''}'',
            ''e'', ''='', [dquote, dquote], '')'']
   \<and> ProtoType_init
         [''Function'', ''VOID'', ''f'', ''('', ''ENUM'', ''{'', [dquote, dquote], '','', ''a'', ''}'',
          ''e'', ''='', [dquote, dquote], '')''] [] True [] =
       Inr (\<lparr>obj = None,
              args = [\<lparr>nm = Some ''e'', defval = Some [dquote, dquote],
                       spec = Some [[dquote, dquote], ''a''], opt = False,
                       vt = ''ENUM'', ct = ''VCL_ENUM'', nm2 = ''e''\<rparr>],
              argstruct = False,
              retval = \<lparr>nm = None, defval = None, spec = None, opt = False,
                         vt = ''VOID'', ct = ''VCL_VOID''\<rparr>,
              bname = ''f'', name = ''f''\<rparr>,
            [([dquote, dquote], True), (''a'', True)])"
proof -
  have a: "is_quoted txt = (3 \<le> length txt \<and> hd txt = last txt \<and> (hd txt = dquote \<or> hd txt = squote))"
    by (auto simp: is_quoted_def)
  have b: "\<not> is_quoted [dquote, dquote]" "\<not> is_quoted [squote, squote]"
    by (simp_all add: is_quoted_def)
  have c: "add_spec_loop ([dquote, dquote] # ''}'' # wl) sp en =
       Inr (sp @ [[dquote, dquote]], wl, AList.update [dquote, dquote] True en)"
    using b by simp
  have d: "tokenize (''Function VOID f(ENUM {'' @ [dquote, dquote] @ '', a} e = '' @ [dquote, dquote] @ '')'') =
       Inr [''Function'', ''VOID'', ''f'', ''('', ''ENUM'', ''{'', [dquote, dquote], '','', ''a'', ''}'',
            ''e'', ''='', [dquote, dquote], '')'']"
    by code_simp
  have e: "ProtoType_init
         [''Function'', ''VOID'', ''f'', ''('', ''ENUM'', ''{'', [dquote, dquote], '','', ''a'', ''}'',
          ''e'', ''='', [dquote, dquote], '')''] [] True [] =
       Inr (\<lparr>obj = None,
              args = [\<lparr>nm = Some ''e'', defval = Some [dquote, dquote],
                       spec = Some [[dquote, dquote], ''a''], opt = False,
                       vt = ''ENUM'', ct = ''VCL_ENUM'', nm2 = ''e''\<rparr>],
              argstruct = False,
              retval = \<lparr>nm = None, defval = None, spec = None, opt = False,
                         vt = ''VOID'', ct = ''VCL_VOID''\<rparr>,
              bname = ''f'', name = ''f''\<rparr>,
            [([dquote, dquote], True), (''a'', True)])"
    by code_simp
  show ?thesis
    by (intro conjI) (rule a, rule b(1), rule b(2), rule c, rule d, rule e)
qed

subsection \<open>Protocol entries of functions\<close>

text \<open>
  The description of one argument in the words of the specification: the tuple of kind,
  name, default, enum literal set and optional flag (present only when set), without its
  trailing empty fields.
\<close>

definition arg_tuple_trimmed :: "arg \<Rightarrow> json" where
  "arg_tuple_trimmed a =
     JList (rev (dropWhile (\<lambda>x. x = JNone)
       (rev ([JStr (vt a), str_or_None (nm a), str_or_None (defval a), list_or_None (spec a)] @
             (if opt a then [JBool True] else [])))))"

lemma trim_None_eq:
  "\<not> list_all (\<lambda>x. x = JNone) l \<Longrightarrow> trim_None l = Inr (rev (dropWhile (\<lambda>x. x = JNone) (rev l)))"
proof (induction l rule: trim_None.induct)
  case (1 l)
  from "1.prems" have ne: "l \<noteq> []" by auto
  then obtain xs x where l: "l = xs @ [x]"
    by (cases l rule: rev_cases) auto
  show ?case
  proof (cases "x = JNone")
    case True
    with l "1.prems" have "\<not> list_all (\<lambda>x. x = JNone) xs"
      by simp
    with "1.IH" [OF ne] l True
    have "trim_None xs = Inr (rev (dropWhile (\<lambda>x. x = JNone) (rev xs)))"
      by simp
    with l True show ?thesis
      by (subst trim_None.simps) simp
  next
    case False
    with l show ?thesis
      by (subst trim_None.simps) simp
  qed
qed

lemma arg_jsonproto_eq: "arg_jsonproto a jl = Inr (jl @ [arg_tuple_trimmed a])"
proof -
  have "\<not> list_all (\<lambda>x. x = JNone)
          ([JStr (vt a), str_or_None (nm a), str_or_None (defval a), list_or_None (spec a)] @
             (if opt a then [JBool True] else []))"
    by simp
  from trim_None_eq [OF this] show ?thesis
    by (simp add: arg_jsonproto_def arg_tuple_trimmed_def)
qed

lemma args_jsonproto_eq: "args_jsonproto as ll = Inr (ll @ map arg_tuple_trimmed as)"
  by (induction as arbitrary: ll) (simp_all add: arg_jsonproto_eq)

lemma CType_jsonproto_eq: "CType_jsonproto c jl = Inr (jl @ [JList [JStr (vt c)]])"
proof -
  have "trim_None [JStr (vt c)] = Inr [JStr (vt c)]"
    by (subst trim_None.simps) simp
  then show ?thesis by (simp add: CType_jsonproto_def)
qed

lemma ProtoType_jsonproto_eq:
  "ProtoType_jsonproto v p jl cfunc =
     Inr (jl @ [JList ([JList [JStr (vt (retval p))], JStr (str_of (csn v) @ ''.'' @ cfunc),
                        JStr (if argstruct p
                              then ''struct arg_'' @ sympfx v @ str_of (modname v) @ ''_'' @ cname p
                              else [])] @ map arg_tuple_trimmed (args p))])"
  by (simp add: ProtoType_jsonproto_def CType_jsonproto_eq args_jsonproto_eq)

text \<open>
  Claim C4. The protocol entry of a Function declaration is an array tagged
  \<^verbatim>\<open>$FUNC\<close> that carries the name, the return kind and, for each argument, the tuple
  (kind, name, default, enum literal set, optional flag) with its trailing empty fields
  removed. For \<^verbatim>\<open>BOOL is_even(INT n)\<close> the argument array is
  \<^verbatim>\<open>["INT", "n"]\<close>; the last conjunct runs the declaration through the parser and
  the generator.
\<close>

theorem function_json_entry:
  "stanza_json v (Stanza FunctionStanza ts d r n ms (Some p) a) jl =
     Inr (jl @ [JList [JStr ''$FUNC'', JStr (name p),
                  JList ([JList [JStr (vt (retval p))], JStr (str_of (csn v) @ ''.'' @ cname p),
                          JStr (if argstruct p
                                then ''struct arg_'' @ sympfx v @ str_of (modname v) @ ''_'' @ cname p
                                else [])] @ map arg_tuple_trimmed (args p))]])
   \<and> arg_tuple_trimmed \<lparr>nm = Some ''n'', defval = None, spec = None, opt = False,
                          vt = ''INT'', ct = ''VCL_INT'', nm2 = ''n''\<rparr> = JList [JStr ''INT'', JStr ''n'']
   \<and> (case parse False (\<lambda>x. ''ID'') (vcc_init ''vmod.vcc'' ''.'' ''vcc_if'')
              (''$Module m 3 '' @ [dquote] @ ''desc'' @ [dquote] @ [nl] @
               ''$Function BOOL is_even(INT n)'' @ [nl]) of
         Inl e \<Rightarrow> Inl e
       | Inr u \<Rightarrow> stanzas_json u (contents u) []) =
      Inr [JList [JStr ''$FUNC'', JStr ''is_even'',
                  JList [JList [JStr ''BOOL''], JStr ''Vmod_vmod_m_Func.is_even'', JStr [],
                         JList [JStr ''INT'', JStr ''n'']]]]"
proof (intro conjI)
  show "stanza_json v (Stanza FunctionStanza ts d r n ms (Some p) a) jl =
     Inr (jl @ [JList [JStr ''$FUNC'', JStr (name p),
                  JList ([JList [JStr (vt (retval p))], JStr (str_of (csn v) @ ''.'' @ cname p),
                          JStr (if argstruct p
                                then ''struct arg_'' @ sympfx v @ str_of (modname v) @ ''_'' @ cname p
                                else [])] @ map arg_tuple_trimmed (args p))]])"
    by (simp add: ProtoType_jsonproto_eq)
next
  show "arg_tuple_trimmed \<lparr>nm = Some ''n'', defval = None, spec = None, opt = False,
                          vt = ''INT'', ct = ''VCL_INT'', nm2 = ''n''\<rparr> = JList [JStr ''INT'', JStr ''n'']"
    by (simp add: arg_tuple_trimmed_def str_or_None_def list_or_None_def)
next
  show "(case parse False (\<lambda>x. ''ID'') (vcc_init ''vmod.vcc'' ''.'' ''vcc_if'')
              (''$Module m 3 '' @ [dquote] @ ''desc'' @ [dquote] @ [nl] @
               ''$Function BOOL is_even(INT n)'' @ [nl]) of
         Inl e \<Rightarrow> Inl e
       | Inr u \<Rightarrow> stanzas_json u (contents u) []) =
      Inr [JList [JStr ''$FUNC'', JStr ''is_even'',
                  JList [JList [JStr ''BOOL''], JStr ''Vmod_vmod_m_Func.is_even'', JStr [],
                         JList [JStr ''INT'', JStr ''n'']]]]"
    by code_simp
qed

subsection \<open>Aliases\<close>

text \<open>
  The target of an alias exists, in the words of the specification: a top-level entry
  with a prototype of that name, or, for a dotted alias, an entry named as the object part
  of the target whose method list has a method named as the target.
\<close>

definition has_proto_named :: "string \<Rightarrow> stanza \<Rightarrow> bool" where
  "has_proto_named x s = (case proto s of None \<Rightarrow> False | Some p \<Rightarrow> name p = x)"




lemma find_symbol_Inl:
  "find_symbol tbl x = Inl e \<Longrightarrow> \<not> list_ex (has_proto_named x) tbl"
  by (induction tbl) (auto simp: has_proto_named_def fatal_def split: option.splits if_splits)

lemma find_symbol_filter:
  "find_symbol tbl x = find_symbol (filter (\<lambda>s. proto s \<noteq> None) tbl) x"
  by (induction tbl) (auto split: option.splits)

lemma find_symbol_append_no_proto:
  "proto s = None \<Longrightarrow> find_symbol (tbl @ [s]) x = find_symbol tbl x"
  by (induction tbl) (auto simp: fatal_def split: option.splits)

lemma no_proto_handlers:
  assumes "c \<in> {ModuleStanza, PrefixStanza, ABIStanza, SynopsisStanza, EventStanza, AliasStanza}"
      and "new_stanza strict v c ts d = Inr v'"
  shows "\<exists>s. contents v' = contents v @ [s] \<and> proto s = None"
  using assms
  by (auto simp: new_stanza_def ModuleStanza_parse_def PrefixStanza_parse_def ABIStanza_parse_def
        SynopsisStanza_parse_def EventStanza_parse_def AliasStanza_parse_def Stanza_init_def
        append_contents_def with_rstlbl_def with_attrs_def warn_def err_def syntax_error_def fatal_def Let_def
      split: if_splits sum.splits option.splits)






text \<open>
  Claim C9. The lookup of an alias target skips every entry that carries no prototype.
  The stanzas of the classes Module, Prefix, ABI, Synopsis, Event and Alias carry none:
  declaring one of them never changes what a name resolves to, so an alias cannot
  resolve to any of them, and a table of such entries only gives the fatal error
  \<^verbatim>\<open>Symbol '...' not found\<close>.
\<close>

theorem alias_lookup_skips_entries_without_prototype:
  "find_symbol tbl x = find_symbol (filter (\<lambda>s. proto s \<noteq> None) tbl) x
   \<and> (list_all (\<lambda>s. proto s = None) tbl \<longrightarrow>
        find_symbol tbl x = Inl (Fatal (''ERROR: Symbol '' @ quoted x @ '' not found'' @ [nl])))
   \<and> (c \<in> {ModuleStanza, PrefixStanza, ABIStanza, SynopsisStanza, EventStanza, AliasStanza} \<and>
       new_stanza strict v c ts d = Inr v' \<longrightarrow>
        find_symbol (contents v') x = find_symbol (contents v) x)"
proof (intro conjI impI)
  show "find_symbol tbl x = find_symbol (filter (\<lambda>s. proto s \<noteq> None) tbl) x"
    by (rule find_symbol_filter)
next
  assume "list_all (\<lambda>s. proto s = None) tbl"
  then have "filter (\<lambda>s. proto s \<noteq> None) tbl = []"
    by (induction tbl) auto
  with find_symbol_filter [of tbl x]
  show "find_symbol tbl x = Inl (Fatal (''ERROR: Symbol '' @ quoted x @ '' not found'' @ [nl]))"
    by (simp add: fatal_def)
next
  assume "c \<in> {ModuleStanza, PrefixStanza, ABIStanza, SynopsisStanza, EventStanza, AliasStanza} \<and>
       new_stanza strict v c ts d = Inr v'"
  then obtain s where "contents v' = contents v @ [s]" and "proto s = None"
    using no_proto_handlers by blast
  then show "find_symbol (contents v') x = find_symbol (contents v) x"
    by (simp add: find_symbol_append_no_proto)
qed

theorem alias_lookup_skips_entries_without_prototype_witness:
  "list_all (\<lambda>s. proto s = None) [Stanza_init EventStanza [''Event'', ''ev''] []]
   \<and> find_symbol [Stanza_init EventStanza [''Event'', ''ev''] []] ''ev'' =
       Inl (Fatal (''ERROR: Symbol '' @ quoted ''ev'' @ '' not found'' @ [nl]))
   \<and> EventStanza \<in> {ModuleStanza, PrefixStanza, ABIStanza, SynopsisStanza, EventStanza, AliasStanza}
   \<and> new_stanza True (vcc_init ''vmod.vcc'' ''.'' ''vcc_if'') EventStanza [''Event'', ''ev''] [] =
       Inr (append_contents (with_attrs (EventAttrs ''ev'') (Stanza_init EventStanza [''Event'', ''ev''] []))
              (vcc_init ''vmod.vcc'' ''.'' ''vcc_if''))
   \<and> find_symbol
         (contents (append_contents (with_attrs (EventAttrs ''ev'') (Stanza_init EventStanza [''Event'', ''ev''] []))
              (vcc_init ''vmod.vcc'' ''.'' ''vcc_if''))) ''ev'' =
       find_symbol (contents (vcc_init ''vmod.vcc'' ''.'' ''vcc_if'')) ''ev''"
proof -
  have h1: "list_all (\<lambda>s. proto s = None) [Stanza_init EventStanza [''Event'', ''ev''] []]"
    by (simp add: Stanza_init_def)
  have h2: "EventStanza \<in> {ModuleStanza, PrefixStanza, ABIStanza, SynopsisStanza, EventStanza, AliasStanza}"
    by simp
  have h3: "new_stanza True (vcc_init ''vmod.vcc'' ''.'' ''vcc_if'') EventStanza [''Event'', ''ev''] [] =
       Inr (append_contents (with_attrs (EventAttrs ''ev'') (Stanza_init EventStanza [''Event'', ''ev''] []))
              (vcc_init ''vmod.vcc'' ''.'' ''vcc_if''))"
    by (simp add: new_stanza_def EventStanza_parse_def Stanza_init_def)
  from h1 h2 h3
    alias_lookup_skips_entries_without_prototype
      [of "[Stanza_init EventStanza [''Event'', ''ev''] []]" "''ev''" EventStanza True
          "vcc_init ''vmod.vcc'' ''.'' ''vcc_if''" "[''Event'', ''ev'']" "[]"
          "append_contents (with_attrs (EventAttrs ''ev'') (Stanza_init EventStanza [''Event'', ''ev''] []))
              (vcc_init ''vmod.vcc'' ''.'' ''vcc_if'')"]
  show ?thesis by blast
qed

subsection \<open>Strictness and the order of declarations\<close>

text \<open>
  Counterexample to claim C6 as stated: without \<^verbatim>\<open>--strict\<close>, a document with
  \<^verbatim>\<open>$ABI foo\<close> is parsed to the end, with one warning on stderr.
\<close>

theorem abi_invalid_mode_accepted_without_strict:
  "\<not> isl (parse False id (vcc_init ''vmod.vcc'' ''.'' ''vcc_if'') (''$Module m 3 d'' @ [nl] @ ''$ABI foo''))
   \<and> map_sum id stderr
        (parse False id (vcc_init ''vmod.vcc'' ''.'' ''vcc_if'') (''$Module m 3 d'' @ [nl] @ ''$ABI foo'')) =
       Inr [''WARNING: Valid ABI types are '' @ quoted ''strict'' @ '' or '' @ quoted ''vrt'' @
            '', got '' @ quoted ''foo'' @ [nl]]"
  by code_simp

text \<open>
  Claim C6, amended. An ABI declaration whose mode token is neither \<^verbatim>\<open>strict\<close> nor
  \<^verbatim>\<open>vrt\<close> is fatal when strict mode is enabled; otherwise \<^verbatim>\<open>err\<close> only writes a
  warning and the declaration is accepted.
\<close>

theorem abi_invalid_mode:
  assumes "length ts = 2" and "ts ! 1 \<noteq> ''strict''" and "ts ! 1 \<noteq> ''vrt''"
  shows "case new_stanza strict v ABIStanza ts d of
           Inl e \<Rightarrow> strict \<and>
             e = Fatal (''ERROR: Valid ABI types are '' @ quoted ''strict'' @ '' or '' @
                        quoted ''vrt'' @ '', got '' @ quoted (ts ! 1) @ [nl])
         | Inr v' \<Rightarrow> \<not> strict \<and>
             contents v' = contents v @ [Stanza_init ABIStanza ts d] \<and>
             stderr v' = stderr v @
               [''WARNING: Valid ABI types are '' @ quoted ''strict'' @ '' or '' @
                quoted ''vrt'' @ '', got '' @ quoted (ts ! 1) @ [nl]]"
  using assms
  by (simp add: new_stanza_def ABIStanza_parse_def Stanza_init_def warn_def err_def
        append_contents_def Let_def)

theorem abi_invalid_mode_witness:
  "length [''ABI'', ''foo''] = 2 \<and> [''ABI'', ''foo''] ! 1 \<noteq> ''strict'' \<and> [''ABI'', ''foo''] ! 1 \<noteq> ''vrt''
   \<and> (case new_stanza False (vcc_init ''vmod.vcc'' ''.'' ''vcc_if'') ABIStanza [''ABI'', ''foo''] [] of
           Inl e \<Rightarrow> False \<and>
             e = Fatal (''ERROR: Valid ABI types are '' @ quoted ''strict'' @ '' or '' @
                        quoted ''vrt'' @ '', got '' @ quoted ([''ABI'', ''foo''] ! 1) @ [nl])
         | Inr v' \<Rightarrow> \<not> False \<and>
             contents v' = contents (vcc_init ''vmod.vcc'' ''.'' ''vcc_if'') @ [Stanza_init ABIStanza [''ABI'', ''foo''] []] \<and>
             stderr v' = stderr (vcc_init ''vmod.vcc'' ''.'' ''vcc_if'') @
               [''WARNING: Valid ABI types are '' @ quoted ''strict'' @ '' or '' @
                quoted ''vrt'' @ '', got '' @ quoted ([''ABI'', ''foo''] ! 1) @ [nl]])"
proof -
  have h: "length [''ABI'', ''foo''] = 2" "[''ABI'', ''foo''] ! 1 \<noteq> ''strict''" "[''ABI'', ''foo''] ! 1 \<noteq> ''vrt''"
    by simp_all
  show ?thesis
    using h abi_invalid_mode [OF h, of False "vcc_init ''vmod.vcc'' ''.'' ''vcc_if''" "[]"]
    by blast
qed

text \<open>
  Counterexample to claim C7 as stated: a second \<^verbatim>\<open>$Prefix\<close> and a second
  \<^verbatim>\<open>$ABI\<close> are accepted, even in strict mode; the symbol prefix is then the one of
  the second \<^verbatim>\<open>$Prefix\<close>, and \<^verbatim>\<open>strict_abi\<close> the one of the second \<^verbatim>\<open>$ABI\<close>.
\<close>

theorem redeclaration_accepted:
  "map_sum id sympfx
     (parse True id (vcc_init ''vmod.vcc'' ''.'' ''vcc_if'') (''$Prefix a'' @ [nl] @ ''$Prefix b'')) = Inr ''b_''
   \<and> map_sum id strict_abi
     (parse True id (vcc_init ''vmod.vcc'' ''.'' ''vcc_if'') (''$ABI vrt'' @ [nl] @ ''$ABI strict'')) = Inr (Some True)"
  by code_simp

text \<open>
  Counterexample to claim C8 as stated: a document whose first declaration is
  \<^verbatim>\<open>$Prefix\<close> and whose second is \<^verbatim>\<open>$Module\<close> is parsed without error, and so
  is a document with no \<^verbatim>\<open>$Module\<close> declaration, whose module name stays unset.
\<close>

theorem module_not_required_first:
  "\<not> isl (parse True id (vcc_init ''vmod.vcc'' ''.'' ''vcc_if'') (''$Prefix foo'' @ [nl] @ ''$Module m 3 d''))
   \<and> map_sum id modname (parse True id (vcc_init ''vmod.vcc'' ''.'' ''vcc_if'') ''$Event ev'') = Inr None"
  by code_simp

lemma ModuleStanza_parse_modname:
  "isl (ModuleStanza_parse (v\<lparr>modname := m\<rparr>) self) = isl (ModuleStanza_parse v self)"
  by (simp add: ModuleStanza_parse_def syntax_error_def fatal_def split: sum.splits)

lemma ABIStanza_parse_modname:
  "isl (ABIStanza_parse strict (v\<lparr>modname := m\<rparr>) self) = isl (ABIStanza_parse strict v self)"
  by (simp add: ABIStanza_parse_def syntax_error_def fatal_def warn_def err_def Let_def)

lemma SynopsisStanza_parse_modname:
  "isl (SynopsisStanza_parse strict (v\<lparr>modname := m\<rparr>) self) = isl (SynopsisStanza_parse strict v self)"
  by (simp add: SynopsisStanza_parse_def syntax_error_def fatal_def warn_def err_def Let_def)

lemma FunctionStanza_parse_modname:
  "isl (FunctionStanza_parse (v\<lparr>modname := m\<rparr>) self) = isl (FunctionStanza_parse v self)"
  by (simp add: FunctionStanza_parse_def split: sum.splits prod.splits)

lemma ObjectStanza_parse_modname:
  "isl (ObjectStanza_parse (v\<lparr>modname := m\<rparr>) self) = isl (ObjectStanza_parse v self)"
  by (simp add: ObjectStanza_parse_def Let_def split: sum.splits prod.splits)

lemma MethodStanza_parse_modname:
  "isl (MethodStanza_parse (v\<lparr>modname := m\<rparr>) self) = isl (MethodStanza_parse v self)"
  by (simp add: MethodStanza_parse_def Let_def fatal_def split: sum.splits prod.splits option.splits)

lemma AliasStanza_parse_modname:
  "isl (AliasStanza_parse (v\<lparr>modname := m\<rparr>) self) = isl (AliasStanza_parse v self)"
  by (simp add: AliasStanza_parse_def Let_def fatal_def split: sum.splits prod.splits option.splits)

subsection \<open>The argument struct\<close>

text \<open>
  What the prototype parser guarantees of every argument: an optional argument is named,
  and the bookkeeping name of a named argument is its name.
\<close>

definition arg_ok :: "arg \<Rightarrow> bool" where
  "arg_ok a = (case nm a of None \<Rightarrow> \<not> opt a | Some x \<Rightarrow> nm2 a = x)"

lemma CType_init_opt: "CType_init wl en = Inr (t, wl', en') \<Longrightarrow> \<not> opt t"
  by (auto simp: CType_init_def add_spec_def fatal_def Let_def
      split: list.splits option.splits if_splits sum.splits)

lemma arg_init_opt: "arg_init wl nmz en e = Inr (t, wl', nmz', en') \<Longrightarrow> \<not> opt t"
  by (auto simp: arg_init_def fatal_def Let_def
      split: list.splits option.splits if_splits sum.splits prod.splits dest: CType_init_opt)

lemma finish_arg_ok:
  "finish_arg t n = Inr a \<Longrightarrow> (nm t = None \<Longrightarrow> \<not> opt t) \<Longrightarrow> arg_ok a \<and> opt a = opt t"
  by (auto simp: finish_arg_def fatal_def arg_ok_def ctype.extend_def arg.fields_def
      split: if_splits option.splits)

lemma proto_args_ok:
  "proto_args wl nmz en n as st = Inr (as', st', en') \<Longrightarrow>
   list_all arg_ok as \<Longrightarrow> st = list_ex opt as \<Longrightarrow>
   list_all arg_ok as' \<and> st' = list_ex opt as'"
proof (induction wl nmz en n as st rule: proto_args.induct)
  case (1 nmz en n as st)
  then show ?case by (auto simp: proto_args.simps)
next
  case (2 x wl nmz en n as st)
  show ?case
  proof (cases "wl = []")
    case True
    with "2.prems" show ?thesis
      by (auto simp: proto_args.simps fatal_def split: if_splits)
  next
    case False
    from "2.prems"(1) have x: "\<not> x \<noteq> '',''"
      by (auto simp: proto_args.simps fatal_def split: if_splits)
    show ?thesis
    proof (cases "hd wl = ''[''")
      case True
      with "2.prems"(1) x False obtain t wl2 nmz' en1 a where
        ai: "arg_init (tl wl) nmz en '']'' = Inr (t, '']'' # wl2, nmz', en1)"
        and nmt: "nm t \<noteq> None"
        and fa: "finish_arg (t\<lparr>opt := True\<rparr>) (Suc n) = Inr a"
        and rec: "proto_args wl2 nmz' en1 (Suc n) (as @ [a]) True = Inr (as', st', en')"
        by (auto simp: proto_args.simps fatal_def split: if_splits sum.splits list.splits)
      from finish_arg_ok [OF fa] nmt have "arg_ok a" and "opt a" by auto
      with "2.prems" have p1: "list_all arg_ok (as @ [a])" and p2: "True = list_ex opt (as @ [a])"
        by auto
      from ai have ai': "arg_init (tl wl) nmz en '']'' = Inr (t, ('']'' # wl2, nmz', en1))"
        by simp
      have y: "\<not> '']'' \<noteq> '']''" by simp
      from "2.IH"(1) [OF x False True ai' refl refl refl nmt refl y fa rec p1 p2]
      show ?thesis .
    next
      case F2: False
      with "2.prems"(1) x False obtain t wl1 nmz' en1 a where
        ai: "arg_init wl nmz en '','' = Inr (t, wl1, nmz', en1)"
        and fa: "finish_arg t (Suc n) = Inr a"
        and rec: "proto_args wl1 nmz' en1 (Suc n) (as @ [a]) st = Inr (as', st', en')"
        by (auto simp: proto_args.simps fatal_def split: if_splits sum.splits list.splits)
      from arg_init_opt [OF ai] have no: "\<not> opt t" .
      from finish_arg_ok [OF fa] no have "arg_ok a" and "\<not> opt a" by auto
      with "2.prems" have p1: "list_all arg_ok (as @ [a])" and p2: "st = list_ex opt (as @ [a])"
        by auto
      from "2.IH"(2) [OF x False F2 ai refl refl refl fa rec p1 p2]
      show ?thesis .
    qed
  qed
qed

lemma ProtoType_init_ok:
  assumes "ProtoType_init ts en r pre = Inr (p, en')"
  shows "list_all arg_ok (args p) \<and> argstruct p = list_ex opt (args p)"
proof (cases "args p = [] \<and> \<not> argstruct p")
  case True
  then show ?thesis by simp
next
  case False
  with assms obtain wl en1 as st en2 where
    "proto_args wl [] en1 0 [] False = Inr (as, st, en2)" and "args p = as" and "argstruct p = st"
    unfolding ProtoType_init_def fatal_def Let_def
    by (auto split: sum.splits list.splits if_splits prod.splits)
  with proto_args_ok [of wl "[]" en1 0 "[]" False as st en2] show ?thesis
    by simp
qed

lemma valid_lines_eq:
  "list_all arg_ok as \<Longrightarrow>
   valid_lines as s = Inr (s @ concat (map (\<lambda>a. valid_line (nm2 a)) (filter opt as)))"
  by (induction as arbitrary: s) (auto simp: arg_ok_def split: option.splits)

lemma opt_args_named:
  "list_all arg_ok as \<Longrightarrow> map nm (filter opt as) = map (\<lambda>a. Some (nm2 a)) (filter opt as)"
  by (induction as) (auto simp: arg_ok_def split: option.splits)

lemma field_lines_eq: "field_lines as s = s @ concat (map field_line as)"
  by (induction as arbitrary: s) auto

text \<open>
  Claim C1. For every prototype that the parser builds, and every prototype with the same
  arguments (the init entry of an object), the aggregate struct lists first one validity
  flag per optional argument, in declaration order and named after the argument, then
  one field per argument, optional or not, in declaration order. The \<^verbatim>\<open>argstruct\<close>
  flag is set exactly when an argument is optional, and the header then has this struct
  before the prototype.
\<close>

theorem argstructure_field_order:
  assumes "ProtoType_init ts en r pre = Inr (p, en')" and "args q = args p"
  shows "argstructure q =
           Inr ([nl] @ argstructname q @ '' {'' @ [nl] @
                concat (map (\<lambda>a. valid_line (nm2 a)) (filter opt (args q))) @
                concat (map field_line (args q)) @ ''};'' @ [nl])
         \<and> map nm (filter opt (args q)) = map (\<lambda>a. Some (nm2 a)) (filter opt (args q))
         \<and> argstruct p = list_ex opt (args p)
         \<and> (argstruct q \<longrightarrow>
              cproto v q eargs CHR ''h'' =
                Inr ([nl] @ argstructname q @ '' {'' @ [nl] @
                     concat (map (\<lambda>a. valid_line (nm2 a)) (filter opt (args q))) @
                     concat (map field_line (args q)) @ ''};'' @ [nl] @
                     lwrap (ProtoType_proto q eargs (cname_pfx (sympfx v) q))))"
proof -
  from ProtoType_init_ok [OF assms(1)] assms(2)
  have ok: "list_all arg_ok (args q)" and st: "argstruct p = list_ex opt (args p)"
    by simp_all
  from valid_lines_eq [OF ok]
  have a: "argstructure q =
           Inr ([nl] @ argstructname q @ '' {'' @ [nl] @
                concat (map (\<lambda>a. valid_line (nm2 a)) (filter opt (args q))) @
                concat (map field_line (args q)) @ ''};'' @ [nl])"
    by (simp add: argstructure_def field_lines_eq)
  then have "argstruct q \<longrightarrow>
              cproto v q eargs CHR ''h'' =
                Inr ([nl] @ argstructname q @ '' {'' @ [nl] @
                     concat (map (\<lambda>a. valid_line (nm2 a)) (filter opt (args q))) @
                     concat (map field_line (args q)) @ ''};'' @ [nl] @
                     lwrap (ProtoType_proto q eargs (cname_pfx (sympfx v) q)))"
    by (simp add: cproto_def)
  moreover from ok have "map nm (filter opt (args q)) = map (\<lambda>a. Some (nm2 a)) (filter opt (args q))"
    by (rule opt_args_named)
  ultimately show ?thesis using a st by blast
qed

text \<open>The signature \<^verbatim>\<open>f(INT a, [INT b], INT c, [INT d])\<close>: valid_b, valid_d, a, b, c, d.\<close>

theorem argstructure_field_order_witness:
  "ProtoType_init
           [''Function'', ''VOID'', ''f'', ''('', ''INT'', ''a'', '','', ''['', ''INT'', ''b'', '']'', '','',
            ''INT'', ''c'', '','', ''['', ''INT'', ''d'', '']'', '')''] [] True [] = Inr ((fst (projr (ProtoType_init
           [''Function'', ''VOID'', ''f'', ''('', ''INT'', ''a'', '','', ''['', ''INT'', ''b'', '']'', '','',
            ''INT'', ''c'', '','', ''['', ''INT'', ''d'', '']'', '')''] [] True []))), (snd (projr (ProtoType_init
           [''Function'', ''VOID'', ''f'', ''('', ''INT'', ''a'', '','', ''['', ''INT'', ''b'', '']'', '','',
            ''INT'', ''c'', '','', ''['', ''INT'', ''d'', '']'', '')''] [] True []))))
   \<and> args (fst (projr (ProtoType_init
           [''Function'', ''VOID'', ''f'', ''('', ''INT'', ''a'', '','', ''['', ''INT'', ''b'', '']'', '','',
            ''INT'', ''c'', '','', ''['', ''INT'', ''d'', '']'', '')''] [] True []))) = args (fst (projr (ProtoType_init
           [''Function'', ''VOID'', ''f'', ''('', ''INT'', ''a'', '','', ''['', ''INT'', ''b'', '']'', '','',
            ''INT'', ''c'', '','', ''['', ''INT'', ''d'', '']'', '')''] [] True [])))
   \<and> argstruct (fst (projr (ProtoType_init
           [''Function'', ''VOID'', ''f'', ''('', ''INT'', ''a'', '','', ''['', ''INT'', ''b'', '']'', '','',
            ''INT'', ''c'', '','', ''['', ''INT'', ''d'', '']'', '')''] [] True [])))
   \<and> argstructure (fst (projr (ProtoType_init
           [''Function'', ''VOID'', ''f'', ''('', ''INT'', ''a'', '','', ''['', ''INT'', ''b'', '']'', '','',
            ''INT'', ''c'', '','', ''['', ''INT'', ''d'', '']'', '')''] [] True []))) =
           Inr ([nl] @ argstructname (fst (projr (ProtoType_init
           [''Function'', ''VOID'', ''f'', ''('', ''INT'', ''a'', '','', ''['', ''INT'', ''b'', '']'', '','',
            ''INT'', ''c'', '','', ''['', ''INT'', ''d'', '']'', '')''] [] True []))) @ '' {'' @ [nl] @
                concat (map (\<lambda>a. valid_line (nm2 a)) (filter opt (args (fst (projr (ProtoType_init
           [''Function'', ''VOID'', ''f'', ''('', ''INT'', ''a'', '','', ''['', ''INT'', ''b'', '']'', '','',
            ''INT'', ''c'', '','', ''['', ''INT'', ''d'', '']'', '')''] [] True [])))))) @
                concat (map field_line (args (fst (projr (ProtoType_init
           [''Function'', ''VOID'', ''f'', ''('', ''INT'', ''a'', '','', ''['', ''INT'', ''b'', '']'', '','',
            ''INT'', ''c'', '','', ''['', ''INT'', ''d'', '']'', '')''] [] True []))))) @ ''};'' @ [nl])
   \<and> argstructure (fst (projr (ProtoType_init
           [''Function'', ''VOID'', ''f'', ''('', ''INT'', ''a'', '','', ''['', ''INT'', ''b'', '']'', '','',
            ''INT'', ''c'', '','', ''['', ''INT'', ''d'', '']'', '')''] [] True []))) =
         Inr ([nl] @ ''struct VARGS(f) {'' @ [nl, tab] @ ''char'' @ [tab, tab, tab] @ ''valid_b;'' @ [nl, tab] @
              ''char'' @ [tab, tab, tab] @ ''valid_d;'' @ [nl, tab] @
              ''VCL_INT'' @ [tab, tab, tab] @ ''a;'' @ [nl, tab] @ ''VCL_INT'' @ [tab, tab, tab] @ ''b;'' @ [nl, tab] @
              ''VCL_INT'' @ [tab, tab, tab] @ ''c;'' @ [nl, tab] @ ''VCL_INT'' @ [tab, tab, tab] @ ''d;'' @ [nl] @
              ''};'' @ [nl])"
proof -
  have "\<not> isl (ProtoType_init
           [''Function'', ''VOID'', ''f'', ''('', ''INT'', ''a'', '','', ''['', ''INT'', ''b'', '']'', '','',
            ''INT'', ''c'', '','', ''['', ''INT'', ''d'', '']'', '')''] [] True [])"
    by code_simp
  then have h: "ProtoType_init
           [''Function'', ''VOID'', ''f'', ''('', ''INT'', ''a'', '','', ''['', ''INT'', ''b'', '']'', '','',
            ''INT'', ''c'', '','', ''['', ''INT'', ''d'', '']'', '')''] [] True [] = Inr ((fst (projr (ProtoType_init
           [''Function'', ''VOID'', ''f'', ''('', ''INT'', ''a'', '','', ''['', ''INT'', ''b'', '']'', '','',
            ''INT'', ''c'', '','', ''['', ''INT'', ''d'', '']'', '')''] [] True []))), (snd (projr (ProtoType_init
           [''Function'', ''VOID'', ''f'', ''('', ''INT'', ''a'', '','', ''['', ''INT'', ''b'', '']'', '','',
            ''INT'', ''c'', '','', ''['', ''INT'', ''d'', '']'', '')''] [] True []))))"
    by simp
  have s: "argstruct (fst (projr (ProtoType_init
           [''Function'', ''VOID'', ''f'', ''('', ''INT'', ''a'', '','', ''['', ''INT'', ''b'', '']'', '','',
            ''INT'', ''c'', '','', ''['', ''INT'', ''d'', '']'', '')''] [] True [])))"
    by code_simp
  have e: "argstructure (fst (projr (ProtoType_init
           [''Function'', ''VOID'', ''f'', ''('', ''INT'', ''a'', '','', ''['', ''INT'', ''b'', '']'', '','',
            ''INT'', ''c'', '','', ''['', ''INT'', ''d'', '']'', '')''] [] True []))) =
         Inr ([nl] @ ''struct VARGS(f) {'' @ [nl, tab] @ ''char'' @ [tab, tab, tab] @ ''valid_b;'' @ [nl, tab] @
              ''char'' @ [tab, tab, tab] @ ''valid_d;'' @ [nl, tab] @
              ''VCL_INT'' @ [tab, tab, tab] @ ''a;'' @ [nl, tab] @ ''VCL_INT'' @ [tab, tab, tab] @ ''b;'' @ [nl, tab] @
              ''VCL_INT'' @ [tab, tab, tab] @ ''c;'' @ [nl, tab] @ ''VCL_INT'' @ [tab, tab, tab] @ ''d;'' @ [nl] @
              ''};'' @ [nl])"
    by code_simp
  from argstructure_field_order [OF h refl] h s e
  show ?thesis by blast
qed

subsection \<open>Objects\<close>

lemma ProtoType_init_void:
  assumes "ProtoType_init ts en False pre = Inr (p, en')"
  shows "ct (retval p) = ''VCL_VOID''"
proof -
  have c: "CType_init [''VOID''] en =
     Inr (\<lparr>nm = None, defval = None, spec = None, opt = False, vt = ''VOID'', ct = ''VCL_VOID''\<rparr>, [], en)"
    by (simp add: CType_init_def CTYPES_def PRIVS_def)
  from assms show ?thesis
    unfolding ProtoType_init_def fatal_def Let_def c
    by (auto split: sum.splits list.splits if_splits prod.splits)
qed

lemma ProtoType_init_name:
  assumes "ProtoType_init ts en r pre = Inr (p, en')"
  shows "name p = pre @ bname p \<and> obj p = None"
  using assms
  unfolding ProtoType_init_def fatal_def Let_def
  by (auto split: sum.splits list.splits if_splits prod.splits)

lemma replace_dot_append: "replace_dot (a @ b) = replace_dot a @ replace_dot b"
  by (simp add: replace_dot_def)

lemma lwrap_short: "length s \<le> 64 \<Longrightarrow> s \<noteq> [] \<Longrightarrow> lwrap s = s @ [nl]"
  by (simp add: lwrap_def lwrap_loop.simps)

text \<open>
  Counterexample to claim C3 as stated: for \<^verbatim>\<open>$Object foo(STRING s)\<close> the native
  argument list of the init entry is the declared argument after three implicit leading
  arguments, not two.
\<close>

theorem object_init_three_implicit_arguments:
  "ObjectStanza_cstuff (projr (parse True id (vcc_init ''vmod.vcc'' ''.'' ''vcc_if'')
           (''$Module m 3 d'' @ [nl] @ ''$Object foo(STRING s)''))) (last (contents (projr (parse True id (vcc_init ''vmod.vcc'' ''.'' ''vcc_if'')
           (''$Module m 3 d'' @ [nl] @ ''$Object foo(STRING s)''))))) CHR ''c'' =
     Inr (''struct VPFX(m_foo);'' @ [nl] @
          ''typedef VCL_VOID td_vmod_m_foo__init(VRT_CTX,'' @ [nl] @
          ''    struct VPFX(m_foo) **, const char *, VCL_STRING);'' @ [nl] @
          ''typedef VCL_VOID td_vmod_m_foo__fini(struct VPFX(m_foo) **);'' @ [nl, nl])
   \<and> map ct (args (init (attrs (last (contents (projr (parse True id (vcc_init ''vmod.vcc'' ''.'' ''vcc_if'')
           (''$Module m 3 d'' @ [nl] @ ''$Object foo(STRING s)'')))))))) = [''VCL_STRING'']
   \<and> proto_ll (init (attrs (last (contents (projr (parse True id (vcc_init ''vmod.vcc'' ''.'' ''vcc_if'')
           (''$Module m 3 d'' @ [nl] @ ''$Object foo(STRING s)''))))))) (init_eargs ''VPFX(m_foo)'') =
       [''VRT_CTX'', ''struct VPFX(m_foo) **'', ''const char *'', ''VCL_STRING'']
   \<and> length (init_eargs ''VPFX(m_foo)'') \<noteq> 2"
  by code_simp

text \<open>
  Claim C3, amended. An Object declaration that is accepted carries its declared
  constructor prototype and exactly two synthesized prototypes: init, the declared
  prototype with \<^verbatim>\<open>__init\<close> appended to its name, and fini, with \<^verbatim>\<open>__fini\<close>
  appended, no arguments and no argument struct. In the native prototypes the argument
  list of fini is the one implicit handle argument, and the argument list of init is
  three implicit leading arguments (the context, the handle and the instance name)
  followed by the native types of the declared arguments, or by one pointer to the
  argument struct when an argument is optional.
\<close>

theorem object_init_fini:
  assumes "new_stanza strict v ObjectStanza ts d = Inr v'" and "modname v = Some m"
  shows "\<exists>s p. contents v' = contents v @ [s] \<and> proto s = Some p \<and> methods s = Some [] \<and>
           attrs s = ObjectAttrs (p\<lparr>name := name p @ ''__init''\<rparr>)
                       (p\<lparr>name := name p @ ''__fini'', argstruct := False, args := []\<rparr>) \<and>
           proto_ll (p\<lparr>name := name p @ ''__init''\<rparr>) (init_eargs (''VPFX('' @ m @ ''_'' @ name p @ '')'')) =
             [''VRT_CTX'', ''struct VPFX('' @ m @ ''_'' @ name p @ '') **'', ''const char *''] @
             (if argstruct p then [''struct VARGS('' @ cname p @ ''__init)*''] else map ct (args p)) \<and>
           proto_ll (p\<lparr>name := name p @ ''__fini'', argstruct := False, args := []\<rparr>)
               (fini_eargs (''VPFX('' @ m @ ''_'' @ name p @ '')'')) =
             [''struct VPFX('' @ m @ ''_'' @ name p @ '') **''] \<and>
           ObjectStanza_cstuff v' s CHR ''c'' =
             Inr (''struct VPFX('' @ m @ ''_'' @ name p @ '');'' @ [nl] @
                  lwrap (''typedef VCL_VOID td_'' @ sympfx v @ m @ ''_'' @ cname p @ ''__init('' @
                         join '', '' ([''VRT_CTX'', ''struct VPFX('' @ m @ ''_'' @ name p @ '') **'', ''const char *''] @
                           (if argstruct p then [''struct VARGS('' @ cname p @ ''__init)*''] else map ct (args p))) @
                         '');'') @
                  lwrap (''typedef VCL_VOID td_'' @ sympfx v @ m @ ''_'' @ cname p @ ''__fini('' @
                         ''struct VPFX('' @ m @ ''_'' @ name p @ '') **'' @ '');'') @
                  [nl])"
proof -
  from assms(1) obtain self1 p0 en1 where
    pi: "ProtoType_init (toks self1) (enums v) False [] = Inr (p0, en1)"
    and v': "v' = append_contents
                (with_methods (Some [])
                   (with_rstlbl (Some (str_of (modname v) @ ''.'' @ name p0 @ ''()''))
                      (with_attrs (ObjectAttrs (p0\<lparr>obj := Some (''x'' @ name p0), name := name p0 @ ''__init''\<rparr>)
                                     (p0\<lparr>obj := Some (''x'' @ name p0), name := name p0 @ ''__fini'',
                                         argstruct := False, args := []\<rparr>))
                         (with_proto (Some (p0\<lparr>obj := Some (''x'' @ name p0)\<rparr>)) self1))))
                (v\<lparr>enums := en1\<rparr>)"
    unfolding new_stanza_def ObjectStanza_parse_def Let_def
    by (auto split: if_splits sum.splits prod.splits)
  let ?p = "p0\<lparr>obj := Some (''x'' @ name p0)\<rparr>"
  let ?s = "with_methods (Some [])
                   (with_rstlbl (Some (str_of (modname v) @ ''.'' @ name p0 @ ''()''))
                      (with_attrs (ObjectAttrs (p0\<lparr>obj := Some (''x'' @ name p0), name := name p0 @ ''__init''\<rparr>)
                                     (p0\<lparr>obj := Some (''x'' @ name p0), name := name p0 @ ''__fini'',
                                         argstruct := False, args := []\<rparr>))
                         (with_proto (Some (p0\<lparr>obj := Some (''x'' @ name p0)\<rparr>)) self1)))"
  from ProtoType_init_void [OF pi] have vd: "ct (retval p0) = ''VCL_VOID''" .
  have c1: "contents v' = contents v @ [?s]"
    by (simp add: v' append_contents_def)
  have c2: "proto ?s = Some ?p" "methods ?s = Some []"
    "attrs ?s = ObjectAttrs (?p\<lparr>name := name ?p @ ''__init''\<rparr>)
                       (?p\<lparr>name := name ?p @ ''__fini'', argstruct := False, args := []\<rparr>)"
    by (simp_all add: with_methods_def with_rstlbl_def with_attrs_def with_proto_def)
  have c3: "proto_ll (?p\<lparr>name := name ?p @ ''__init''\<rparr>) (init_eargs (''VPFX('' @ m @ ''_'' @ name ?p @ '')'')) =
             [''VRT_CTX'', ''struct VPFX('' @ m @ ''_'' @ name ?p @ '') **'', ''const char *''] @
             (if argstruct ?p then [''struct VARGS('' @ cname ?p @ ''__init)*''] else map ct (args ?p))"
    by (simp add: proto_ll_def init_eargs_def argstructname_def cname_def replace_dot_append)
       (simp add: replace_dot_def)
  have c4: "proto_ll (?p\<lparr>name := name ?p @ ''__fini'', argstruct := False, args := []\<rparr>)
               (fini_eargs (''VPFX('' @ m @ ''_'' @ name ?p @ '')'')) =
             [''struct VPFX('' @ m @ ''_'' @ name ?p @ '') **'']"
    by (simp add: proto_ll_def fini_eargs_def)
  have mv: "modname v' = Some m" "sympfx v' = sympfx v"
    using assms(2) by (simp_all add: v' append_contents_def)
  have c5: "ObjectStanza_cstuff v' ?s CHR ''c'' =
             Inr (''struct VPFX('' @ m @ ''_'' @ name ?p @ '');'' @ [nl] @
                  lwrap (''typedef VCL_VOID td_'' @ sympfx v @ m @ ''_'' @ cname ?p @ ''__init('' @
                         join '', '' ([''VRT_CTX'', ''struct VPFX('' @ m @ ''_'' @ name ?p @ '') **'', ''const char *''] @
                           (if argstruct ?p then [''struct VARGS('' @ cname ?p @ ''__init)*''] else map ct (args ?p))) @
                         '');'') @
                  lwrap (''typedef VCL_VOID td_'' @ sympfx v @ m @ ''_'' @ cname ?p @ ''__fini('' @
                         ''struct VPFX('' @ m @ ''_'' @ name ?p @ '') **'' @ '');'') @
                  [nl])"
    unfolding ObjectStanza_cstuff_def c2 mv
    using c3 c4 vd
    by (simp add: Let_def cproto_def ProtoType_typedef_def typedef_name_def mv ProtoType_proto_def
            cname_def replace_dot_append)
       (simp add: replace_dot_def)
  from c1 c2 c3 c4 c5 show ?thesis by blast
qed

theorem object_init_fini_witness:
  "new_stanza True (projr (new_stanza True (vcc_init ''vmod.vcc'' ''.'' ''vcc_if'') ModuleStanza [''Module'', ''m'', ''3'', ''d''] [])) ObjectStanza
           [''Object'', ''foo'', ''('', ''STRING'', ''s'', '')''] [] = Inr (projr (new_stanza True (projr (new_stanza True (vcc_init ''vmod.vcc'' ''.'' ''vcc_if'') ModuleStanza [''Module'', ''m'', ''3'', ''d''] [])) ObjectStanza
           [''Object'', ''foo'', ''('', ''STRING'', ''s'', '')''] []))
   \<and> modname (projr (new_stanza True (vcc_init ''vmod.vcc'' ''.'' ''vcc_if'') ModuleStanza [''Module'', ''m'', ''3'', ''d''] [])) = Some ''m''
   \<and> (\<exists>s p. contents (projr (new_stanza True (projr (new_stanza True (vcc_init ''vmod.vcc'' ''.'' ''vcc_if'') ModuleStanza [''Module'', ''m'', ''3'', ''d''] [])) ObjectStanza
           [''Object'', ''foo'', ''('', ''STRING'', ''s'', '')''] [])) = contents (projr (new_stanza True (vcc_init ''vmod.vcc'' ''.'' ''vcc_if'') ModuleStanza [''Module'', ''m'', ''3'', ''d''] [])) @ [s] \<and> proto s = Some p \<and> methods s = Some [] \<and>
           attrs s = ObjectAttrs (p\<lparr>name := name p @ ''__init''\<rparr>)
                       (p\<lparr>name := name p @ ''__fini'', argstruct := False, args := []\<rparr>) \<and>
           proto_ll (p\<lparr>name := name p @ ''__init''\<rparr>) (init_eargs (''VPFX('' @ ''m'' @ ''_'' @ name p @ '')'')) =
             [''VRT_CTX'', ''struct VPFX('' @ ''m'' @ ''_'' @ name p @ '') **'', ''const char *''] @
             (if argstruct p then [''struct VARGS('' @ cname p @ ''__init)*''] else map ct (args p)) \<and>
           proto_ll (p\<lparr>name := name p @ ''__fini'', argstruct := False, args := []\<rparr>)
               (fini_eargs (''VPFX('' @ ''m'' @ ''_'' @ name p @ '')'')) =
             [''struct VPFX('' @ ''m'' @ ''_'' @ name p @ '') **''] \<and>
           ObjectStanza_cstuff (projr (new_stanza True (projr (new_stanza True (vcc_init ''vmod.vcc'' ''.'' ''vcc_if'') ModuleStanza [''Module'', ''m'', ''3'', ''d''] [])) ObjectStanza
           [''Object'', ''foo'', ''('', ''STRING'', ''s'', '')''] [])) s CHR ''c'' =
             Inr (''struct VPFX('' @ ''m'' @ ''_'' @ name p @ '');'' @ [nl] @
                  lwrap (''typedef VCL_VOID td_'' @ sympfx (projr (new_stanza True (vcc_init ''vmod.vcc'' ''.'' ''vcc_if'') ModuleStanza [''Module'', ''m'', ''3'', ''d''] [])) @ ''m'' @ ''_'' @ cname p @ ''__init('' @
                         join '', '' ([''VRT_CTX'', ''struct VPFX('' @ ''m'' @ ''_'' @ name p @ '') **'', ''const char *''] @
                           (if argstruct p then [''struct VARGS('' @ cname p @ ''__init)*''] else map ct (args p))) @
                         '');'') @
                  lwrap (''typedef VCL_VOID td_'' @ sympfx (projr (new_stanza True (vcc_init ''vmod.vcc'' ''.'' ''vcc_if'') ModuleStanza [''Module'', ''m'', ''3'', ''d''] [])) @ ''m'' @ ''_'' @ cname p @ ''__fini('' @
                         ''struct VPFX('' @ ''m'' @ ''_'' @ name p @ '') **'' @ '');'') @
                  [nl]))"
proof -
  have "\<not> isl (new_stanza True (projr (new_stanza True (vcc_init ''vmod.vcc'' ''.'' ''vcc_if'') ModuleStanza [''Module'', ''m'', ''3'', ''d''] [])) ObjectStanza
           [''Object'', ''foo'', ''('', ''STRING'', ''s'', '')''] [])"
    by code_simp
  then have h1: "new_stanza True (projr (new_stanza True (vcc_init ''vmod.vcc'' ''.'' ''vcc_if'') ModuleStanza [''Module'', ''m'', ''3'', ''d''] [])) ObjectStanza
           [''Object'', ''foo'', ''('', ''STRING'', ''s'', '')''] [] = Inr (projr (new_stanza True (projr (new_stanza True (vcc_init ''vmod.vcc'' ''.'' ''vcc_if'') ModuleStanza [''Module'', ''m'', ''3'', ''d''] [])) ObjectStanza
           [''Object'', ''foo'', ''('', ''STRING'', ''s'', '')''] []))"
    by simp
  have h2: "modname (projr (new_stanza True (vcc_init ''vmod.vcc'' ''.'' ''vcc_if'') ModuleStanza [''Module'', ''m'', ''3'', ''d''] [])) = Some ''m''"
    by code_simp
  from object_init_fini [OF h1 h2] h1 h2
  show ?thesis by blast
qed

subsection \<open>Determinism\<close>

text \<open>
  A run is given the name of its input file, the directory of the documentation files
  and the prefix of the output files; \<open>set_env\<close> sets these three in a context.
\<close>

definition set_env :: "string \<Rightarrow> string \<Rightarrow> string \<Rightarrow> vcc \<Rightarrow> vcc" where
  "set_env i r p v = v\<lparr>inputfile := i, rstdir := r, pfx := p\<rparr>"

lemma set_env_sel [simp]:
  "sympfx (set_env i r p v) = sympfx v"
  "contents (set_env i r p v) = contents v"
  "enums (set_env i r p v) = enums v"
  "strict_abi (set_env i r p v) = strict_abi v"
  "vrt_major (set_env i r p v) = vrt_major v"
  "vrt_minor (set_env i r p v) = vrt_minor v"
  "modname (set_env i r p v) = modname v"
  "csn (set_env i r p v) = csn v"
  "file_id (set_env i r p v) = file_id v"
  by (simp_all add: set_env_def)

lemma vcc_init_env: "vcc_init i r p = set_env i r p (vcc_init [] [] [])"
  by (simp add: vcc_init_def set_env_def)

lemma new_stanza_env:
  "new_stanza strict (set_env i r p v) c ts d = map_sum id (set_env i r p) (new_stanza strict v c ts d)"
proof (cases c)
  case ModuleStanza
  then show ?thesis
    by (simp add: new_stanza_def ModuleStanza_parse_def syntax_error_def fatal_def
          append_contents_def set_env_def Let_def split: sum.splits)
next
  case PrefixStanza
  then show ?thesis
    by (simp add: new_stanza_def PrefixStanza_parse_def syntax_error_def fatal_def
          append_contents_def set_env_def Let_def)
next
  case ABIStanza
  then show ?thesis
    by (simp add: new_stanza_def ABIStanza_parse_def syntax_error_def fatal_def warn_def err_def
          append_contents_def set_env_def Let_def)
next
  case EventStanza
  then show ?thesis
    by (simp add: new_stanza_def EventStanza_parse_def syntax_error_def fatal_def
          append_contents_def set_env_def Let_def)
next
  case FunctionStanza
  then show ?thesis
    by (simp add: new_stanza_def FunctionStanza_parse_def
          append_contents_def set_env_def Let_def split: sum.splits prod.splits)
next
  case ObjectStanza
  then show ?thesis
    by (simp add: new_stanza_def ObjectStanza_parse_def
          append_contents_def set_env_def Let_def split: sum.splits prod.splits)
next
  case MethodStanza
  then show ?thesis
    by (simp add: new_stanza_def MethodStanza_parse_def fatal_def
          append_contents_def set_env_def Let_def split: sum.splits prod.splits option.splits)
next
  case SynopsisStanza
  then show ?thesis
    by (simp add: new_stanza_def SynopsisStanza_parse_def syntax_error_def fatal_def warn_def err_def
          append_contents_def set_env_def Let_def)
next
  case AliasStanza
  then show ?thesis
    by (simp add: new_stanza_def AliasStanza_parse_def fatal_def
          append_contents_def set_env_def Let_def split: sum.splits prod.splits option.splits)
qed

lemma parse_loop_env:
  "parse_loop strict (set_env i r p v) h s =
     map_sum id (\<lambda>(v', h'). (set_env i r p v', h')) (parse_loop strict v h s)"
proof (induction s arbitrary: v h)
  case Nil
  then show ?case by simp
next
  case (Cons x s)
  show ?case
    by (simp add: new_stanza_env fatal_def Cons.IH Let_def
        split: sum.splits list.splits option.splits)
qed

lemma parse_env:
  "parse strict hexdigest (set_env i r p v) b = map_sum id (set_env i r p) (parse strict hexdigest v b)"
proof -
  have c: "(set_env i r p v)\<lparr>copyright := x\<rparr> = set_env i r p (v\<lparr>copyright := x\<rparr>)" for x
    by (simp add: set_env_def)
  show ?thesis
    unfolding parse_def Let_def c parse_loop_env
    by (auto simp: set_env_def split: sum.splits prod.splits)
qed

lemma typedef_name_env [simp]: "typedef_name (set_env i r p v) q = typedef_name v q"
  by (simp add: typedef_name_def split: option.splits)

lemma cproto_env [simp]: "cproto (set_env i r p v) q eargs w = cproto v q eargs w"
  by (simp add: cproto_def ProtoType_typedef_def split: sum.splits)

lemma methods_cproto_env [simp]:
  "methods_cproto (set_env i r p v) ms eargs w out = methods_cproto v ms eargs w out"
  by (induction ms arbitrary: out) (auto split: option.splits sum.splits)

lemma ObjectStanza_cstuff_env [simp]:
  "ObjectStanza_cstuff (set_env i r p v) s w = ObjectStanza_cstuff v s w"
  by (simp add: ObjectStanza_cstuff_def Let_def
        split: option.splits sum.splits prod.splits stanza_attrs.splits)

lemma FunctionStanza_cstuff_env [simp]:
  "FunctionStanza_cstuff (set_env i r p v) s w = FunctionStanza_cstuff v s w"
  by (simp add: FunctionStanza_cstuff_def split: option.splits)

lemma objects_cstuff_env [simp]:
  "objects_cstuff (set_env i r p v) l out = objects_cstuff v l out"
  by (induction l arbitrary: out) (auto split: sum.splits)

lemma functions_cstuff_env [simp]:
  "functions_cstuff (set_env i r p v) l out = functions_cstuff v l out"
  by (induction l arbitrary: out) (auto split: sum.splits)

lemma mkdefs_env [simp]: "mkdefs (set_env i r p v) = mkdefs v"
  by (simp add: mkdefs_def)

lemma fmt_cstruct_proto_env [simp]:
  "fmt_cstruct_proto (set_env i r p v) q df = fmt_cstruct_proto v q df"
  by (simp add: fmt_cstruct_proto_def)

lemma stanza_cstruct_env [simp]:
  "stanza_cstruct (set_env i r p v) s df out = stanza_cstruct v s df out"
  "stanzas_cstruct (set_env i r p v) l df out = stanzas_cstruct v l df out"
  by (induction v s df out and v l df out rule: stanza_cstruct_stanzas_cstruct.induct)
     (auto split: sum.splits option.splits stanza_class.splits stanza_attrs.splits)

lemma vcc_cstruct_env [simp]: "vcc_cstruct (set_env i r p v) = vcc_cstruct v"
  by (simp add: vcc_cstruct_def split: sum.splits)

lemma mkcfile_fx_env [simp]: "mkcfile_fx (set_env i r p v) = mkcfile_fx v"
  by (simp add: mkcfile_fx_def split: sum.splits)

lemma ProtoType_jsonproto_env [simp]:
  "ProtoType_jsonproto (set_env i r p v) q jl cfunc = ProtoType_jsonproto v q jl cfunc"
  by (simp add: ProtoType_jsonproto_def split: sum.splits)

lemma stanza_json_env [simp]:
  "stanza_json (set_env i r p v) s jl = stanza_json v s jl"
  "stanzas_json (set_env i r p v) l jl = stanzas_json v l jl"
  by (induction v s jl and v l jl rule: stanza_json_stanzas_json.induct)
     (auto split: sum.splits option.splits stanza_class.splits stanza_attrs.splits prod.splits)

lemma iter_json_env [simp]: "iter_json (set_env i r p v) l = iter_json v l"
  by (simp add: iter_json_def)

lemma json_line_env [simp]: "json_line (set_env i r p v) n x = json_line v n x"
  by (simp add: json_line_def)

lemma vcc_json_env [simp]: "vcc_json dl (set_env i r p v) l = vcc_json dl v l"
  by (simp add: vcc_json_def split: sum.splits)

lemma mkcfile_json_env [simp]: "mkcfile_json dl (set_env i r p v) = mkcfile_json dl v"
  by (simp add: mkcfile_json_def split: sum.splits)

text \<open>
  The canonical line of a declaration, in the words of the specification: the tokens of
  its first line joined again by single spaces, after the sigil.
\<close>

definition canonical_line :: "string \<Rightarrow> string" where
  "canonical_line x =
     (case tokenize (hd (re_split [] x)) of
        Inl e \<Rightarrow> []
      | Inr ts \<Rightarrow> CHR ''$'' # join '' '' ts @ [nl])"

lemma tokenize_loop_total:
  "(q \<noteq> None \<or> ins \<longrightarrow> os \<noteq> []) \<Longrightarrow> \<exists>ts. tokenize_loop cs q os ins = Inr ts"
proof (induction cs arbitrary: q os ins)
  case Nil
  then show ?case by simp
next
  case (Cons c cs)
  have a: "os \<noteq> [] \<Longrightarrow> add_to_last os c = Inr (butlast os @ [last os @ [c]])"
    by (simp add: add_to_last_def)
  show ?case
    using Cons.prems
    by (auto simp: a intro!: Cons.IH)
qed

lemma tokenize_total: "\<exists>ts. tokenize cs = Inr ts"
  unfolding tokenize_def by (rule tokenize_loop_total) simp

lemma parse_loop_hash:
  "parse_loop strict v h s = Inr (v', h') \<Longrightarrow> h' = h @ concat (map canonical_line s)"
proof (induction s arbitrary: v h)
  case Nil
  then show ?case by simp
next
  case (Cons x s)
  from Cons.prems obtain ts c v1 where
    t: "tokenize (hd (re_split [] x)) = Inr ts"
    and r: "parse_loop strict v1 (h @ CHR ''$'' # join '' '' ts @ [nl]) s = Inr (v', h')"
    by (auto simp: Let_def fatal_def split: sum.splits list.splits option.splits)
  from Cons.IH [OF r] t show ?case
    by (simp add: canonical_line_def)
qed

lemma parse_file_id:
  assumes "parse strict hexdigest v b = Inr v'"
  shows "file_id v' = Some (hexdigest (concat (map canonical_line (tl (split_stanzas [] (nl # b))))))"
proof -
  from assms obtain v2 h where
    l: "parse_loop strict (v\<lparr>copyright := strip (hd (split_stanzas [] (nl # b)))\<rparr>) []
          (tl (split_stanzas [] (nl # b))) = Inr (v2, h)"
    and v': "v' = v2\<lparr>csn := Some (''Vmod_'' @ sympfx v2 @ str_of (modname v2) @ ''_Func''),
                    file_id := Some (hexdigest h)\<rparr>"
    unfolding parse_def Let_def by (auto split: sum.splits prod.splits)
  from parse_loop_hash [OF l] v' show ?thesis by simp
qed

text \<open>
  Claim C2. Two runs on the same input text, with the same strictness, give the same
  Content Identity Fingerprint and the same protocol blob (or fail alike), whatever the
  file names of the two runs. The fingerprint of an accepted document is the digest of
  the canonical lines of its declarations, in declaration order; a run has no other
  input.
\<close>

theorem deterministic_fingerprint_and_blob:
  "map_sum id file_id (parse strict hexdigest (vcc_init i1 r1 p1) b) =
   map_sum id file_id (parse strict hexdigest (vcc_init i2 r2 p2) b)
   \<and> (case parse strict hexdigest (vcc_init i1 r1 p1) b of
         Inl e \<Rightarrow> Inl e
       | Inr v \<Rightarrow> mkcfile_json dumps_lines v) =
     (case parse strict hexdigest (vcc_init i2 r2 p2) b of
         Inl e \<Rightarrow> Inl e
       | Inr v \<Rightarrow> mkcfile_json dumps_lines v)
   \<and> canonical_line x = CHR ''$'' # join '' '' (projr (tokenize (hd (re_split [] x)))) @ [nl]
   \<and> (parse strict hexdigest u b = Inr u' \<longrightarrow>
        file_id u' =
          Some (hexdigest (concat (map canonical_line (tl (split_stanzas [] (nl # b)))))))"
proof (intro conjI impI)
  show "map_sum id file_id (parse strict hexdigest (vcc_init i1 r1 p1) b) =
        map_sum id file_id (parse strict hexdigest (vcc_init i2 r2 p2) b)"
    by (subst (1 2) vcc_init_env) (cases "parse strict hexdigest (vcc_init [] [] []) b"; simp add: parse_env)
next
  show "(case parse strict hexdigest (vcc_init i1 r1 p1) b of
         Inl e \<Rightarrow> Inl e
       | Inr v \<Rightarrow> mkcfile_json dumps_lines v) =
     (case parse strict hexdigest (vcc_init i2 r2 p2) b of
         Inl e \<Rightarrow> Inl e
       | Inr v \<Rightarrow> mkcfile_json dumps_lines v)"
    by (subst (1 2) vcc_init_env) (cases "parse strict hexdigest (vcc_init [] [] []) b"; simp add: parse_env)
next
  from tokenize_total [of "hd (re_split [] x)"]
  show "canonical_line x = CHR ''$'' # join '' '' (projr (tokenize (hd (re_split [] x)))) @ [nl]"
    by (auto simp: canonical_line_def)
next
  assume "parse strict hexdigest u b = Inr u'"
  then show "file_id u' =
          Some (hexdigest (concat (map canonical_line (tl (split_stanzas [] (nl # b))))))"
    by (rule parse_file_id)
qed

theorem deterministic_fingerprint_and_blob_witness:
  "(parse True id (vcc_init ''vmod.vcc'' ''.'' ''vcc_if'')
          (''$Module m 3 d'' @ [nl] @ ''$Function BOOL is_even(INT n)'')) = Inr (projr (parse True id (vcc_init ''vmod.vcc'' ''.'' ''vcc_if'')
          (''$Module m 3 d'' @ [nl] @ ''$Function BOOL is_even(INT n)'')))
   \<and> file_id (projr (parse True id (vcc_init ''vmod.vcc'' ''.'' ''vcc_if'')
          (''$Module m 3 d'' @ [nl] @ ''$Function BOOL is_even(INT n)''))) =
       Some (id (concat (map canonical_line (tl (split_stanzas [] (nl # (''$Module m 3 d'' @ [nl] @ ''$Function BOOL is_even(INT n)'')))))))
   \<and> file_id (projr (parse True id (vcc_init ''vmod.vcc'' ''.'' ''vcc_if'')
          (''$Module m 3 d'' @ [nl] @ ''$Function BOOL is_even(INT n)''))) = Some (''$Module m 3 d'' @ [nl] @ ''$Function BOOL is_even ( INT n )'' @ [nl])"
proof -
  have "\<not> isl (parse True id (vcc_init ''vmod.vcc'' ''.'' ''vcc_if'')
          (''$Module m 3 d'' @ [nl] @ ''$Function BOOL is_even(INT n)''))"
    by code_simp
  then have h: "(parse True id (vcc_init ''vmod.vcc'' ''.'' ''vcc_if'')
          (''$Module m 3 d'' @ [nl] @ ''$Function BOOL is_even(INT n)'')) = Inr (projr (parse True id (vcc_init ''vmod.vcc'' ''.'' ''vcc_if'')
          (''$Module m 3 d'' @ [nl] @ ''$Function BOOL is_even(INT n)'')))"
    by simp
  have e: "file_id (projr (parse True id (vcc_init ''vmod.vcc'' ''.'' ''vcc_if'')
          (''$Module m 3 d'' @ [nl] @ ''$Function BOOL is_even(INT n)''))) = Some (''$Module m 3 d'' @ [nl] @ ''$Function BOOL is_even ( INT n )'' @ [nl])"
    by code_simp
  from deterministic_fingerprint_and_blob
         [of True id "''vmod.vcc''" "''.''" "''vcc_if''" "(''$Module m 3 d'' @ [nl] @ ''$Function BOOL is_even(INT n)'')"
             "''vmod.vcc''" "''.''" "''vcc_if''" "\<lambda>j. []" "[]" "(vcc_init ''vmod.vcc'' ''.'' ''vcc_if'')" "projr (parse True id (vcc_init ''vmod.vcc'' ''.'' ''vcc_if'')
          (''$Module m 3 d'' @ [nl] @ ''$Function BOOL is_even(INT n)''))"]
       h e
  show ?thesis by blast
qed

subsection \<open>Repeated and missing declarations\<close>

text \<open>
  The tokens of the first line of a declaration chunk, as \<^verbatim>\<open>vcc.parse\<close> computes
  them (the tokenizer never fails), and three shapes of token lines: a Prefix, Event, ABI
  or Synopsis declaration with a legal argument; a Prefix or ABI declaration with a legal
  argument; a Module declaration with at least the three arguments it needs.
\<close>

definition decl_tokens :: "string \<Rightarrow> string list" where
  "decl_tokens x = projr (tokenize (hd (re_split [] x)))"

definition plain_declaration :: "string list \<Rightarrow> bool" where
  "plain_declaration ts =
     (length ts = 2 \<and>
      (hd ts = ''Prefix'' \<or> hd ts = ''Event'' \<or>
       (hd ts = ''ABI'' \<and> (ts ! 1 = ''strict'' \<or> ts ! 1 = ''vrt'')) \<or>
       (hd ts = ''Synopsis'' \<and> (ts ! 1 = ''auto'' \<or> ts ! 1 = ''manual''))))"

definition prefix_or_abi :: "string list \<Rightarrow> bool" where
  "prefix_or_abi ts =
     (length ts = 2 \<and>
      (hd ts = ''Prefix'' \<or> (hd ts = ''ABI'' \<and> (ts ! 1 = ''strict'' \<or> ts ! 1 = ''vrt''))))"

definition module_declaration :: "string list \<Rightarrow> bool" where
  "module_declaration ts = (4 \<le> length ts \<and> hd ts = ''Module'')"

lemma prefix_or_abi_plain: "prefix_or_abi ts \<Longrightarrow> plain_declaration ts"
  by (auto simp: prefix_or_abi_def plain_declaration_def)

lemma prefix_or_abi_all_plain:
  "list_all (\<lambda>x. prefix_or_abi (decl_tokens x)) l \<Longrightarrow>
   list_all (\<lambda>x. plain_declaration (decl_tokens x)) l"
  by (induction l) (auto dest: prefix_or_abi_plain)

lemma tokenize_decl_tokens: "tokenize (hd (re_split [] x)) = Inr (decl_tokens x)"
  using tokenize_total [of "hd (re_split [] x)"] by (auto simp: decl_tokens_def)

lemma plain_new_stanza:
  assumes "plain_declaration ts"
  shows "\<exists>c v1. map_of DISPATCH (hd ts) = Some c \<and> new_stanza strict v c ts d = Inr v1 \<and>
           modname v1 = modname v \<and> map toks (contents v1) = map toks (contents v) @ [ts]"
proof -
  from assms have l: "length ts = 2" by (simp add: plain_declaration_def)
  from assms consider
      (p) "hd ts = ''Prefix''" | (e) "hd ts = ''Event''"
    | (a) "hd ts = ''ABI''" "ts ! 1 = ''strict'' \<or> ts ! 1 = ''vrt''"
    | (s) "hd ts = ''Synopsis''" "ts ! 1 = ''auto'' \<or> ts ! 1 = ''manual''"
    by (auto simp: plain_declaration_def)
  then show ?thesis
  proof cases
    case p
    with l show ?thesis
      by (simp add: DISPATCH_def new_stanza_def PrefixStanza_parse_def Stanza_init_def
            append_contents_def)
  next
    case e
    with l show ?thesis
      by (simp add: DISPATCH_def new_stanza_def EventStanza_parse_def Stanza_init_def
            append_contents_def with_attrs_def)
  next
    case a
    with l show ?thesis
      by (auto simp: DISPATCH_def new_stanza_def ABIStanza_parse_def Stanza_init_def
            append_contents_def Let_def)
  next
    case s
    with l show ?thesis
      by (auto simp: DISPATCH_def new_stanza_def SynopsisStanza_parse_def Stanza_init_def
            append_contents_def Let_def)
  qed
qed

lemma plain_loop:
  "list_all (\<lambda>x. plain_declaration (decl_tokens x)) s \<Longrightarrow>
   \<exists>v' h'. parse_loop strict v h s = Inr (v', h') \<and> modname v' = modname v \<and>
     map toks (contents v') = map toks (contents v) @ map decl_tokens s"
proof (induction s arbitrary: v h)
  case Nil
  then show ?case by simp
next
  case (Cons x s)
  then have pl: "plain_declaration (decl_tokens x)"
    and rest: "list_all (\<lambda>x. plain_declaration (decl_tokens x)) s"
    by simp_all
  from pl have ne: "decl_tokens x \<noteq> []"
    by (auto simp: plain_declaration_def)
  from plain_new_stanza [OF pl, of strict v "concat (tl (re_split [] x))"]
  obtain c v1 where c: "map_of DISPATCH (hd (decl_tokens x)) = Some c"
    and n: "new_stanza strict v c (decl_tokens x) (concat (tl (re_split [] x))) = Inr v1"
    and m: "modname v1 = modname v"
    and t: "map toks (contents v1) = map toks (contents v) @ [decl_tokens x]"
    by blast
  have step: "parse_loop strict v h (x # s) =
      parse_loop strict v1 (h @ CHR ''$'' # join '' '' (decl_tokens x) @ [nl]) s"
    using ne c n by (cases "decl_tokens x") (simp_all add: tokenize_decl_tokens Let_def)
  from Cons.IH [OF rest, of v1 "h @ CHR ''$'' # join '' '' (decl_tokens x) @ [nl]"]
  obtain v' h' where
    "parse_loop strict v1 (h @ CHR ''$'' # join '' '' (decl_tokens x) @ [nl]) s = Inr (v', h')"
    and "modname v' = modname v1"
    and "map toks (contents v') = map toks (contents v1) @ map decl_tokens s"
    by blast
  with m t have "parse_loop strict v h (x # s) = Inr (v', h') \<and> modname v' = modname v \<and>
     map toks (contents v') = map toks (contents v) @ map decl_tokens (x # s)"
    unfolding step by simp
  then show ?case by blast
qed

lemma parse_loop_append:
  "parse_loop strict v h (s @ t) =
     (case parse_loop strict v h s of
        Inl e \<Rightarrow> Inl e
      | Inr (v', h') \<Rightarrow> parse_loop strict v' h' t)"
  by (induction s arbitrary: v h)
     (auto simp: Let_def fatal_def split: sum.splits list.splits option.splits)

lemma module_new_stanza:
  assumes "module_declaration ts"
  shows "\<exists>v1. new_stanza strict v ModuleStanza ts d = Inr v1 \<and> modname v1 = Some (ts ! 1) \<and>
           map toks (contents v1) = map toks (contents v) @ [ts]"
proof -
  from assms have l: "\<not> length ts < 4" by (simp add: module_declaration_def)
  show ?thesis
  proof (cases "length ts = 4 \<and> is_quoted (ts ! 3)")
    case True
    with l show ?thesis
      by (simp add: new_stanza_def ModuleStanza_parse_def Stanza_init_def unquote_def
            append_contents_def with_rstlbl_def)
  next
    case False
    with l show ?thesis
      by (auto simp: new_stanza_def ModuleStanza_parse_def Stanza_init_def
            append_contents_def with_rstlbl_def)
  qed
qed

lemma module_loop:
  assumes "module_declaration (decl_tokens y)"
  shows "\<exists>v' h'. parse_loop strict v h [y] = Inr (v', h') \<and> modname v' = Some (decl_tokens y ! 1) \<and>
           map toks (contents v') = map toks (contents v) @ [decl_tokens y]"
proof -
  from assms have ne: "decl_tokens y \<noteq> []" and hd: "hd (decl_tokens y) = ''Module''"
    by (auto simp: module_declaration_def)
  from module_new_stanza [OF assms, of strict v "concat (tl (re_split [] y))"]
  obtain v1 where n: "new_stanza strict v ModuleStanza (decl_tokens y) (concat (tl (re_split [] y))) = Inr v1"
    and m: "modname v1 = Some (decl_tokens y ! 1)"
    and t: "map toks (contents v1) = map toks (contents v) @ [decl_tokens y]"
    by blast
  from ne hd n have "parse_loop strict v h [y] =
      Inr (v1, h @ CHR ''$'' # join '' '' (decl_tokens y) @ [nl])"
    by (cases "decl_tokens y") (simp_all add: tokenize_decl_tokens Let_def DISPATCH_def)
  with m t show ?thesis by blast
qed

lemma parse_of_loop:
  assumes "parse_loop strict (v\<lparr>copyright := strip (hd (split_stanzas [] (nl # b)))\<rparr>) []
             (tl (split_stanzas [] (nl # b))) = Inr (v', h')"
  shows "\<exists>u. parse strict hexdigest v b = Inr u \<and> modname u = modname v' \<and>
           contents u = contents v'"
  using assms by (simp add: parse_def Let_def)

lemma new_stanza_keeps_modname:
  "c \<noteq> ModuleStanza \<Longrightarrow> new_stanza strict v c ts d = Inr v' \<Longrightarrow> modname v' = modname v"
  by (cases c)
     (auto simp: new_stanza_def PrefixStanza_parse_def ABIStanza_parse_def SynopsisStanza_parse_def
        EventStanza_parse_def FunctionStanza_parse_def ObjectStanza_parse_def MethodStanza_parse_def
        AliasStanza_parse_def append_contents_def warn_def err_def syntax_error_def fatal_def Let_def
      split: if_splits sum.splits option.splits prod.splits)

text \<open>
  Claim C7, amended. A second \<^verbatim>\<open>$Prefix\<close> or \<^verbatim>\<open>$ABI\<close> declaration is not a fatal
  error: a well-formed \<^verbatim>\<open>$Prefix\<close> declaration (two tokens) and a well-formed
  \<^verbatim>\<open>$ABI\<close> declaration (two tokens, mode \<^verbatim>\<open>strict\<close> or \<^verbatim>\<open>vrt\<close>) are accepted
  in every context, whatever was declared before, so a document made of any number of
  them is parsed to the end with each of them in the declaration list. Each
  \<^verbatim>\<open>$Prefix\<close> declaration sets the symbol prefix to its token followed by an
  underscore.
\<close>

theorem repeated_prefix_and_abi_accepted:
  assumes "length ts = 2" and "length ts' = 2" and "ts' ! 1 = ''strict'' \<or> ts' ! 1 = ''vrt''"
    and "list_all (\<lambda>x. prefix_or_abi (decl_tokens x)) (tl (split_stanzas [] (nl # b)))"
  shows "new_stanza strict v PrefixStanza ts d =
           Inr (append_contents (Stanza_init PrefixStanza ts d) (v\<lparr>sympfx := ts ! 1 @ ''_''\<rparr>))
         \<and> map_sum id contents (new_stanza strict w ABIStanza ts' d) =
             Inr (contents w @ [Stanza_init ABIStanza ts' d])
         \<and> (\<exists>u'. parse strict hexdigest u b = Inr u' \<and>
               map toks (contents u') =
                 map toks (contents u) @ map decl_tokens (tl (split_stanzas [] (nl # b))))"
proof (intro conjI)
  from assms(1) show "new_stanza strict v PrefixStanza ts d =
           Inr (append_contents (Stanza_init PrefixStanza ts d) (v\<lparr>sympfx := ts ! 1 @ ''_''\<rparr>))"
    by (simp add: new_stanza_def PrefixStanza_parse_def Stanza_init_def)
next
  from assms(2,3) show "map_sum id contents (new_stanza strict w ABIStanza ts' d) =
             Inr (contents w @ [Stanza_init ABIStanza ts' d])"
    by (auto simp: new_stanza_def ABIStanza_parse_def Stanza_init_def append_contents_def Let_def)
next
  from assms(4) have "list_all (\<lambda>x. plain_declaration (decl_tokens x)) (tl (split_stanzas [] (nl # b)))"
    by (rule prefix_or_abi_all_plain)
  from plain_loop [OF this, of strict "u\<lparr>copyright := strip (hd (split_stanzas [] (nl # b)))\<rparr>" "[]"]
  obtain v' h' where
    l: "parse_loop strict (u\<lparr>copyright := strip (hd (split_stanzas [] (nl # b)))\<rparr>) []
          (tl (split_stanzas [] (nl # b))) = Inr (v', h')"
    and t: "map toks (contents v') =
              map toks (contents u) @ map decl_tokens (tl (split_stanzas [] (nl # b)))"
    by auto
  from parse_of_loop [OF l, of hexdigest] t
  show "\<exists>u'. parse strict hexdigest u b = Inr u' \<and>
               map toks (contents u') =
                 map toks (contents u) @ map decl_tokens (tl (split_stanzas [] (nl # b)))"
    by auto
qed

theorem repeated_prefix_and_abi_accepted_witness:
  "length [''Prefix'', ''b''] = 2 \<and> length [''ABI'', ''strict''] = 2
   \<and> ([''ABI'', ''strict''] ! 1 = ''strict'' \<or> [''ABI'', ''strict''] ! 1 = ''vrt'')
   \<and> list_all (\<lambda>x. prefix_or_abi (decl_tokens x)) (tl (split_stanzas [] (nl # (''$Prefix a'' @ [nl] @ ''$Prefix b'' @ [nl] @ ''$ABI vrt'' @ [nl] @ ''$ABI strict''))))
   \<and> new_stanza True ((vcc_init ''vmod.vcc'' ''.'' ''vcc_if'')\<lparr>sympfx := ''a_''\<rparr>) PrefixStanza [''Prefix'', ''b''] [] =
       Inr (append_contents (Stanza_init PrefixStanza [''Prefix'', ''b''] [])
              ((vcc_init ''vmod.vcc'' ''.'' ''vcc_if'')\<lparr>sympfx := ''a_'', sympfx := [''Prefix'', ''b''] ! 1 @ ''_''\<rparr>))
   \<and> map_sum id contents
        (new_stanza True ((vcc_init ''vmod.vcc'' ''.'' ''vcc_if'')\<lparr>strict_abi := Some False\<rparr>) ABIStanza [''ABI'', ''strict''] []) =
       Inr (contents ((vcc_init ''vmod.vcc'' ''.'' ''vcc_if'')\<lparr>strict_abi := Some False\<rparr>) @
            [Stanza_init ABIStanza [''ABI'', ''strict''] []])
   \<and> (\<exists>u'. parse True id (vcc_init ''vmod.vcc'' ''.'' ''vcc_if'') (''$Prefix a'' @ [nl] @ ''$Prefix b'' @ [nl] @ ''$ABI vrt'' @ [nl] @ ''$ABI strict'') = Inr u' \<and>
         map toks (contents u') =
           map toks (contents (vcc_init ''vmod.vcc'' ''.'' ''vcc_if'')) @ map decl_tokens (tl (split_stanzas [] (nl # (''$Prefix a'' @ [nl] @ ''$Prefix b'' @ [nl] @ ''$ABI vrt'' @ [nl] @ ''$ABI strict'')))))"
proof -
  have h: "length [''Prefix'', ''b''] = 2" "length [''ABI'', ''strict''] = 2"
    "[''ABI'', ''strict''] ! 1 = ''strict'' \<or> [''ABI'', ''strict''] ! 1 = ''vrt''"
    by simp_all
  have c: "list_all (\<lambda>x. prefix_or_abi (decl_tokens x)) (tl (split_stanzas [] (nl # (''$Prefix a'' @ [nl] @ ''$Prefix b'' @ [nl] @ ''$ABI vrt'' @ [nl] @ ''$ABI strict''))))"
    by code_simp
  from h c repeated_prefix_and_abi_accepted
             [OF h c, of True "(vcc_init ''vmod.vcc'' ''.'' ''vcc_if'')\<lparr>sympfx := ''a_''\<rparr>" "[]"
                "(vcc_init ''vmod.vcc'' ''.'' ''vcc_if'')\<lparr>strict_abi := Some False\<rparr>" id "(vcc_init ''vmod.vcc'' ''.'' ''vcc_if'')"]
  show ?thesis by blast
qed

text \<open>
  Claim C8, amended. Parsing does not require a Module declaration to be first, nor to be
  present. A document made of well-formed Prefix, Event, ABI and Synopsis declarations is
  parsed without a fatal error and its module name stays unset; when a well-formed Module
  declaration follows them, the document is parsed without a fatal error and the module
  name is the one it gives. No declaration other than Module changes the module name,
  whether a declaration is accepted never depends on the module name, and a Function or
  an Object declaration is accepted exactly when its signature is well formed.
\<close>

theorem declarations_accepted_without_module:
  assumes "list_all (\<lambda>x. plain_declaration (decl_tokens x)) s"
  shows "(tl (split_stanzas [] (nl # b)) = s \<longrightarrow>
            (\<exists>u. parse strict hexdigest (vcc_init i r p) b = Inr u \<and> modname u = None \<and>
                  map toks (contents u) = map decl_tokens s))
         \<and> (tl (split_stanzas [] (nl # b')) = s @ [y] \<and> module_declaration (decl_tokens y) \<longrightarrow>
            (\<exists>u. parse strict hexdigest (vcc_init i r p) b' = Inr u \<and>
                  modname u = Some (decl_tokens y ! 1) \<and>
                  map toks (contents u) = map decl_tokens (s @ [y])))
         \<and> (c \<noteq> ModuleStanza \<and> new_stanza strict v c ts d = Inr v' \<longrightarrow> modname v' = modname v)
         \<and> isl (new_stanza strict (v\<lparr>modname := m\<rparr>) c ts d) = isl (new_stanza strict v c ts d)
         \<and> isl (new_stanza strict v FunctionStanza ts d) = isl (ProtoType_init ts (enums v) True [])
         \<and> isl (new_stanza strict v ObjectStanza ts d) =
             (length ts < 2 \<or>
              isl (ProtoType_init (if ts ! 1 = ''NULL_OK'' then hd ts # drop 2 ts else ts)
                     (enums v) False []))"
proof (intro conjI impI)
  assume b: "tl (split_stanzas [] (nl # b)) = s"
  from plain_loop [OF assms, of strict
         "(vcc_init i r p)\<lparr>copyright := strip (hd (split_stanzas [] (nl # b)))\<rparr>" "[]"]
  obtain v1 h1 where
    l: "parse_loop strict ((vcc_init i r p)\<lparr>copyright := strip (hd (split_stanzas [] (nl # b)))\<rparr>) []
          (tl (split_stanzas [] (nl # b))) = Inr (v1, h1)"
    and m: "modname v1 = None"
    and t: "map toks (contents v1) = map decl_tokens s"
    unfolding b by (auto simp: vcc_init_def)
  from parse_of_loop [OF l, of hexdigest] m t
  show "\<exists>u. parse strict hexdigest (vcc_init i r p) b = Inr u \<and> modname u = None \<and>
                  map toks (contents u) = map decl_tokens s"
    by auto
next
  assume "tl (split_stanzas [] (nl # b')) = s @ [y] \<and> module_declaration (decl_tokens y)"
  then have b: "tl (split_stanzas [] (nl # b')) = s @ [y]" and y: "module_declaration (decl_tokens y)"
    by simp_all
  from plain_loop [OF assms, of strict
         "(vcc_init i r p)\<lparr>copyright := strip (hd (split_stanzas [] (nl # b')))\<rparr>" "[]"]
  obtain v1 h1 where
    l1: "parse_loop strict ((vcc_init i r p)\<lparr>copyright := strip (hd (split_stanzas [] (nl # b')))\<rparr>) []
          s = Inr (v1, h1)"
    and t1: "map toks (contents v1) = map decl_tokens s"
    by (auto simp: vcc_init_def)
  from module_loop [OF y, of strict v1 h1]
  obtain v2 h2 where
    l2: "parse_loop strict v1 h1 [y] = Inr (v2, h2)"
    and m2: "modname v2 = Some (decl_tokens y ! 1)"
    and t2: "map toks (contents v2) = map toks (contents v1) @ [decl_tokens y]"
    by blast
  from l1 l2 have
    "parse_loop strict ((vcc_init i r p)\<lparr>copyright := strip (hd (split_stanzas [] (nl # b')))\<rparr>) []
          (tl (split_stanzas [] (nl # b'))) = Inr (v2, h2)"
    unfolding b parse_loop_append by simp
  from parse_of_loop [OF this, of hexdigest] m2 t1 t2
  show "\<exists>u. parse strict hexdigest (vcc_init i r p) b' = Inr u \<and>
                  modname u = Some (decl_tokens y ! 1) \<and>
                  map toks (contents u) = map decl_tokens (s @ [y])"
    by auto
next
  assume "c \<noteq> ModuleStanza \<and> new_stanza strict v c ts d = Inr v'"
  then show "modname v' = modname v"
    using new_stanza_keeps_modname by blast
next
  show "isl (new_stanza strict (v\<lparr>modname := m\<rparr>) c ts d) = isl (new_stanza strict v c ts d)"
    by (cases c)
       (simp_all add: new_stanza_def ModuleStanza_parse_modname ABIStanza_parse_modname
          SynopsisStanza_parse_modname FunctionStanza_parse_modname ObjectStanza_parse_modname
          MethodStanza_parse_modname AliasStanza_parse_modname
          PrefixStanza_parse_def EventStanza_parse_def syntax_error_def fatal_def Let_def)
next
  show "isl (new_stanza strict v FunctionStanza ts d) = isl (ProtoType_init ts (enums v) True [])"
    by (simp add: new_stanza_def FunctionStanza_parse_def Stanza_init_def
          split: sum.splits prod.splits)
next
  show "isl (new_stanza strict v ObjectStanza ts d) =
             (length ts < 2 \<or>
              isl (ProtoType_init (if ts ! 1 = ''NULL_OK'' then hd ts # drop 2 ts else ts)
                     (enums v) False []))"
    by (simp add: new_stanza_def ObjectStanza_parse_def Stanza_init_def with_toks_def
          with_null_ok_def Let_def split: sum.splits prod.splits)
qed

theorem declarations_accepted_without_module_witness:
  "list_all (\<lambda>x. plain_declaration (decl_tokens x)) [''Prefix foo'', ''Event ev'']
   \<and> tl (split_stanzas [] (nl # (''$Prefix foo'' @ [nl] @ ''$Event ev''))) = [''Prefix foo'', ''Event ev'']
   \<and> tl (split_stanzas [] (nl # (''$Prefix foo'' @ [nl] @ ''$Event ev'' @ [nl] @ ''$Module m 3 d''))) = [''Prefix foo'', ''Event ev''] @ [''Module m 3 d'']
   \<and> module_declaration (decl_tokens ''Module m 3 d'')
   \<and> EventStanza \<noteq> ModuleStanza
   \<and> new_stanza True (vcc_init ''vmod.vcc'' ''.'' ''vcc_if'') EventStanza [''Event'', ''ev''] [] =
       Inr (projr (new_stanza True (vcc_init ''vmod.vcc'' ''.'' ''vcc_if'') EventStanza [''Event'', ''ev''] []))
   \<and> (\<exists>u. parse True id (vcc_init ''vmod.vcc'' ''.'' ''vcc_if'') (''$Prefix foo'' @ [nl] @ ''$Event ev'') = Inr u \<and> modname u = None \<and>
            map toks (contents u) = map decl_tokens [''Prefix foo'', ''Event ev''])
   \<and> (\<exists>u. parse True id (vcc_init ''vmod.vcc'' ''.'' ''vcc_if'') (''$Prefix foo'' @ [nl] @ ''$Event ev'' @ [nl] @ ''$Module m 3 d'') = Inr u \<and>
            modname u = Some (decl_tokens ''Module m 3 d'' ! 1) \<and>
            map toks (contents u) = map decl_tokens ([''Prefix foo'', ''Event ev''] @ [''Module m 3 d'']))
   \<and> modname (projr (new_stanza True (vcc_init ''vmod.vcc'' ''.'' ''vcc_if'') EventStanza [''Event'', ''ev''] [])) = modname (vcc_init ''vmod.vcc'' ''.'' ''vcc_if'')"
proof -
  have h: "list_all (\<lambda>x. plain_declaration (decl_tokens x)) [''Prefix foo'', ''Event ev'']"
    by code_simp
  have b1: "tl (split_stanzas [] (nl # (''$Prefix foo'' @ [nl] @ ''$Event ev''))) = [''Prefix foo'', ''Event ev'']"
    by code_simp
  have b2: "tl (split_stanzas [] (nl # (''$Prefix foo'' @ [nl] @ ''$Event ev'' @ [nl] @ ''$Module m 3 d''))) = [''Prefix foo'', ''Event ev''] @ [''Module m 3 d'']"
    by code_simp
  have y: "module_declaration (decl_tokens ''Module m 3 d'')"
    by code_simp
  have c: "EventStanza \<noteq> ModuleStanza"
    by simp
  have "\<not> isl (new_stanza True (vcc_init ''vmod.vcc'' ''.'' ''vcc_if'') EventStanza [''Event'', ''ev''] [])"
    by code_simp
  then have n: "new_stanza True (vcc_init ''vmod.vcc'' ''.'' ''vcc_if'') EventStanza [''Event'', ''ev''] [] =
       Inr (projr (new_stanza True (vcc_init ''vmod.vcc'' ''.'' ''vcc_if'') EventStanza [''Event'', ''ev''] []))"
    by simp
  from declarations_accepted_without_module
         [OF h, of "(''$Prefix foo'' @ [nl] @ ''$Event ev'')" True id "''vmod.vcc''" "''.''" "''vcc_if''" "(''$Prefix foo'' @ [nl] @ ''$Event ev'' @ [nl] @ ''$Module m 3 d'')" "''Module m 3 d''"
             EventStanza "(vcc_init ''vmod.vcc'' ''.'' ''vcc_if'')" "[''Event'', ''ev'']" "[]"
             "projr (new_stanza True (vcc_init ''vmod.vcc'' ''.'' ''vcc_if'') EventStanza [''Event'', ''ev''] [])"]
       h b1 b2 y c n
  show ?thesis by blast
qed

end
